theory Spec2Isabelle
  imports Complex_Main
begin

section \<open>Values of the test module\<close>

text \<open>
  The module under study is \<^verbatim>\<open>tests/stimuli/vision/test_topographica_based.py\<close>
  (Python 2: generators are advanced with \<^verbatim>\<open>g.next()\<close>, and \<^verbatim>\<open>/\<close> on two ints is
  floor division). Exceptions are values of \<open>error\<close>; a call that may raise returns
  \<open>error + 'a\<close> with \<open>Inl\<close> for the exception.
\<close>

datatype error =
    ValueError
  | AssertionError
  | ZeroDivisionError
  | StopIteration
  | NotImplementedError

text \<open>
  A Python number is an int or a float. Floats are idealised as exact rationals: rounding
  is outside this model.
\<close>

datatype pynum = PyInt int | PyFloat rat

fun val :: "pynum \<Rightarrow> rat" where
  "val (PyInt i) = of_int i"
| "val (PyFloat x) = x"

fun py_mul :: "pynum \<Rightarrow> pynum \<Rightarrow> pynum" where
  "py_mul (PyInt a) (PyInt b) = PyInt (a * b)"
| "py_mul a b = PyFloat (val a * val b)"

fun py_div :: "pynum \<Rightarrow> pynum \<Rightarrow> error + pynum" where
  "py_div (PyInt a) (PyInt b) =
     (if b = 0 then Inl ZeroDivisionError else Inr (PyInt (a div b)))"
| "py_div a b =
     (if val b = 0 then Inl ZeroDivisionError else Inr (PyFloat (val a / val b)))"

text \<open>
  An element of a numeric array is a finite number, an infinity or NaN. The comparison
  \<^verbatim>\<open>==\<close> of two elements holds when they are the same value, except that NaN compares
  unequal to everything, itself included.
\<close>

datatype elem = Num rat | PosInf | NegInf | NaN

definition elem_eq :: "elem \<Rightarrow> elem \<Rightarrow> bool" where
  "elem_eq x y = (x = y \<and> x \<noteq> NaN)"

text \<open>
  A frame is a pair of a 2-D numeric array and a metadata list, as in
  \<^verbatim>\<open>yield (aux2, [0])\<close>. An array is its shape and its elements in row-major order.
\<close>

record ndarray =
  shape :: "nat \<times> nat"
  data :: "elem list"

type_synonym frame = "ndarray \<times> int list"

text \<open>
  \<^verbatim>\<open>numpy.array_equal(a1, a2)\<close>: false when the shapes differ, otherwise whether
  \<^verbatim>\<open>a1 == a2\<close> holds at every position. An array that holds NaN is not equal to itself.
\<close>

definition array_equal :: "ndarray \<Rightarrow> ndarray \<Rightarrow> bool" where
  "array_equal a1 a2 =
     (if shape a1 \<noteq> shape a2 then False else list_all2 elem_eq (data a1) (data a2))"

section \<open>Generators\<close>

text \<open>
  A generator object is a step function together with the state it is suspended in.
  \<^verbatim>\<open>g.next()\<close> runs the step function on the state: it returns the frame yielded (or the
  exception raised) and leaves the generator in the new state.
\<close>

type_synonym 's generator = "('s \<Rightarrow> (error + frame) \<times> 's) \<times> 's"

definition gen_next :: "'s generator \<Rightarrow> (error + frame) \<times> 's generator" where
  "gen_next g = (case fst g (snd g) of (res, s') \<Rightarrow> (res, (fst g, s')))"

text \<open>The generator after \<open>k\<close> calls of \<^verbatim>\<open>next()\<close>, and the result of the call after those.\<close>

fun advance :: "'s generator \<Rightarrow> nat \<Rightarrow> 's generator" where
  "advance g 0 = g"
| "advance g (Suc k) = snd (gen_next (advance g k))"

definition pull :: "'s generator \<Rightarrow> nat \<Rightarrow> error + frame" where
  "pull g i = fst (gen_next (advance g i))"

section \<open>The comparison harness\<close>

text \<open>
  \<^verbatim>\<open>
  def frames_equal(self, g0, g1, num_frames):
      for i in range(num_frames):
          f0 = g0.next()
          f1 = g1.next()
          if not (numpy.array_equal(f0[0], f1[0]) and f0[1] == f1[1]):
              return False
      return True
  \<close>
  The loop is a recursion on the number of iterations left. The result carries the two
  generators as the call leaves them, so that the number of frames consumed is visible.
  An exception raised by a generator leaves the function at once.
\<close>

definition frame_match :: "frame \<Rightarrow> frame \<Rightarrow> bool" where
  "frame_match f0 f1 = (array_equal (fst f0) (fst f1) \<and> snd f0 = snd f1)"

fun frames_equal_loop ::
  "'a generator \<Rightarrow> 'b generator \<Rightarrow> nat \<Rightarrow> (error + bool) \<times> 'a generator \<times> 'b generator"
where
  "frames_equal_loop g0 g1 0 = (Inr True, g0, g1)"
| "frames_equal_loop g0 g1 (Suc k) =
     (case gen_next g0 of
        (Inl e, g0') \<Rightarrow> (Inl e, g0', g1)
      | (Inr f0, g0') \<Rightarrow>
          (case gen_next g1 of
             (Inl e, g1') \<Rightarrow> (Inl e, g0', g1')
           | (Inr f1, g1') \<Rightarrow>
               if \<not> frame_match f0 f1 then (Inr False, g0', g1')
               else frames_equal_loop g0' g1' k))"

text \<open>\<^verbatim>\<open>range(num_frames)\<close> is empty for a negative \<open>num_frames\<close>.\<close>

definition frames_equal ::
  "'a generator \<Rightarrow> 'b generator \<Rightarrow> int \<Rightarrow> (error + bool) \<times> 'a generator \<times> 'b generator"
where
  "frames_equal g0 g1 num_frames = frames_equal_loop g0 g1 (nat num_frames)"

section \<open>Constants of the test classes\<close>

text \<open>
  \<^verbatim>\<open>TopographicaBasedVisualStimulusTester.num_frames\<close> and the entries of its
  \<^verbatim>\<open>default_topo\<close> dictionary, then \<^verbatim>\<open>TestNoise.experiment_seed\<close> and the entries of
  \<^verbatim>\<open>TestNoise.default_noise\<close>. Int literals are \<open>PyInt\<close>, float literals \<open>PyFloat\<close>.
\<close>

definition num_frames :: int where
  "num_frames = 100"

definition default_topo_frame_duration :: pynum where
  "default_topo_frame_duration = PyInt 1"

definition default_topo_background_luminance :: pynum where
  "default_topo_background_luminance = PyFloat 50"

definition default_topo_density :: pynum where
  "default_topo_density = PyFloat 10"

definition default_topo_location_x :: pynum where
  "default_topo_location_x = PyFloat 0"

definition default_topo_location_y :: pynum where
  "default_topo_location_y = PyFloat 0"

definition default_topo_size_x :: pynum where
  "default_topo_size_x = PyFloat 11"

definition default_topo_size_y :: pynum where
  "default_topo_size_y = PyFloat 11"

definition TestNoise_experiment_seed :: int where
  "TestNoise_experiment_seed = 0"

definition default_noise_grid_size :: pynum where
  "default_noise_grid_size = PyInt 11"

definition default_noise_grid :: bool where
  "default_noise_grid = False"

definition default_noise_time_per_image :: pynum where
  "default_noise_time_per_image = PyInt 2"

section \<open>The external stimulus library\<close>

text \<open>
  \<^verbatim>\<open>imagen.random.SparseNoise\<close>, \<^verbatim>\<open>imagen.random.DenseNoise\<close> and
  \<^verbatim>\<open>numpy.random.RandomState\<close> belong to other packages; they are parameters of the model.
  A pattern object is called with no argument, draws from the random generator it was
  given and returns an array, or raises: it is a function from the generator's state to
  the result and the new state. The library receives its numeric keyword arguments by
  value; \<^verbatim>\<open>bounds=BoundingBox(radius=...)\<close> is recorded by its radius.

  The arrays that the noise patterns return hold finite numbers (the offset plus the
  scale times a drawn value, for finite arguments): a \<open>field\<close> is such an array, with
  rational elements. \<open>pattern_call\<close> is the call \<^verbatim>\<open>aux()\<close> of a pattern object: it hands
  the field on as the array the caller receives.
\<close>

record field =
  extent :: "nat \<times> nat"
  samples :: "rat list"

definition as_array :: "field \<Rightarrow> ndarray" where
  "as_array f = \<lparr>shape = extent f, data = map Num (samples f)\<rparr>"

type_synonym 'r pattern = "'r \<Rightarrow> (error + field) \<times> 'r"

record pattern_args =
  grid_density :: rat
  offset :: rat
  scale :: rat
  bounds_radius :: rat
  xdensity :: rat
  ydensity :: rat

type_synonym 'r sampler = "'r \<Rightarrow> (error + ndarray) \<times> 'r"

definition pattern_call :: "'r pattern \<Rightarrow> 'r sampler" where
  "pattern_call p r =
     (case p r of (Inl e, r') \<Rightarrow> (Inl e, r') | (Inr f, r') \<Rightarrow> (Inr (as_array f), r'))"

record 'r imagen =
  imagen_SparseNoise :: "bool \<Rightarrow> pattern_args \<Rightarrow> 'r pattern"
  imagen_DenseNoise :: "pattern_args \<Rightarrow> 'r pattern"
  RandomState :: "int \<Rightarrow> 'r"

text \<open>The test classes \<^verbatim>\<open>TestSparseNoise\<close> and \<^verbatim>\<open>TestDenseNoise\<close>.\<close>

datatype noise_class = Sparse | Dense

section \<open>The reference generators\<close>

text \<open>
  \<^verbatim>\<open>size_x / 2\<close>: division by the literal 2 cannot raise; it is floor division on an int
  and true division on a float.
\<close>

fun half :: "pynum \<Rightarrow> pynum" where
  "half (PyInt a) = PyInt (a div 2)"
| "half (PyFloat x) = PyFloat (x / 2)"

text \<open>
  \<^verbatim>\<open>
  def reference_frames(self, grid_size=..., size_x=..., grid=..., background_luminance=...,
                       density=...):
      time_per_image = self.default_noise["time_per_image"]
      frame_duration = self.default_topo["frame_duration"]
      aux = imagen.random.SparseNoise(
          grid_density=grid_size * 1.0 / size_x,
          grid=grid,
          offset=0,
          scale=2 * background_luminance,
          bounds=BoundingBox(radius=size_x / 2),
          xdensity=density,
          ydensity=density,
          random_generator=numpy.random.RandomState(seed=self.experiment_seed),
      )
      while True:
          aux2 = aux()
          for i in range(time_per_image / frame_duration):
              yield (aux2, [0])
  \<close>
  \<^verbatim>\<open>TestDenseNoise.reference_frames\<close> is the same text with \<^verbatim>\<open>imagen.random.DenseNoise\<close>
  and without the \<^verbatim>\<open>grid\<close> parameter and keyword. The parameter \<open>seed\<close> stands for
  \<^verbatim>\<open>self.experiment_seed\<close>.

  \<open>reference_aux\<close> is the part of the body before the loop: it evaluates the keyword
  arguments (\<^verbatim>\<open>grid_size * 1.0 / size_x\<close> raises ZeroDivisionError when \<^verbatim>\<open>size_x\<close> is
  zero) and builds the pattern object and its random generator.
\<close>

definition reference_aux ::
  "'r imagen \<Rightarrow> noise_class \<Rightarrow> int \<Rightarrow> pynum \<Rightarrow> pynum \<Rightarrow> bool \<Rightarrow> pynum \<Rightarrow> pynum \<Rightarrow>
   error + 'r sampler \<times> 'r"
where
  "reference_aux lib cls seed gs sx g bl d =
     (case py_div (py_mul gs (PyFloat 1)) sx of
        Inl e \<Rightarrow> Inl e
      | Inr gd \<Rightarrow>
          (let args = \<lparr>grid_density = val gd, offset = 0, scale = val (py_mul (PyInt 2) bl),
                       bounds_radius = val (half sx), xdensity = val d, ydensity = val d\<rparr>
           in Inr (pattern_call
                     (case cls of
                        Sparse \<Rightarrow> imagen_SparseNoise lib g args
                      | Dense \<Rightarrow> imagen_DenseNoise lib args),
                   RandomState lib seed)))"

text \<open>
  \<^verbatim>\<open>range(time_per_image / frame_duration)\<close> with the two ints of the dictionaries: the
  number of iterations of the inner loop. Both are ints, so the division is floor division
  and the first branch of the case applies: the number is 2, the inner loop yields at
  least once after every draw, and each call of \<^verbatim>\<open>next()\<close> returns.
\<close>

definition frames_per_image :: nat where
  "frames_per_image =
     (case py_div default_noise_time_per_image default_topo_frame_duration of
        Inr (PyInt k) \<Rightarrow> nat k
      | _ \<Rightarrow> 0)"

text \<open>
  The states a reference generator is suspended in: not started; at the \<^verbatim>\<open>yield\<close> in
  iteration \<open>i\<close> of the inner loop, holding the pattern object \<open>aux\<close>, its random
  generator and the array \<open>aux2\<close>; finished (after an exception left the body).
\<close>

datatype 'r ref_state =
    NotStarted
  | Suspended "'r sampler" ndarray nat 'r
  | Finished

text \<open>One turn of \<^verbatim>\<open>while True\<close>: draw an array and yield it in iteration 0.\<close>

definition resample :: "'r sampler \<Rightarrow> 'r \<Rightarrow> (error + frame) \<times> 'r ref_state" where
  "resample aux r =
     (case aux r of
        (Inl e, r') \<Rightarrow> (Inl e, Finished)
      | (Inr aux2, r') \<Rightarrow> (Inr (aux2, [0]), Suspended aux aux2 0 r'))"

fun reference_step ::
  "error + 'r sampler \<times> 'r \<Rightarrow> 'r ref_state \<Rightarrow> (error + frame) \<times> 'r ref_state"
where
  "reference_step body NotStarted =
     (case body of Inl e \<Rightarrow> (Inl e, Finished) | Inr (aux, r) \<Rightarrow> resample aux r)"
| "reference_step body (Suspended aux aux2 i r) =
     (if Suc i < frames_per_image then (Inr (aux2, [0]), Suspended aux aux2 (Suc i) r)
      else resample aux r)"
| "reference_step body Finished = (Inl StopIteration, Finished)"

text \<open>Calling the generator function only creates the generator object.\<close>

definition reference_frames ::
  "'r imagen \<Rightarrow> noise_class \<Rightarrow> int \<Rightarrow> pynum \<Rightarrow> pynum \<Rightarrow> bool \<Rightarrow> pynum \<Rightarrow> pynum \<Rightarrow>
   'r ref_state generator"
where
  "reference_frames lib cls seed gs sx g bl d =
     (reference_step (reference_aux lib cls seed gs sx g bl d), NotStarted)"

text \<open>
  The draws of a pattern object from a generator state \<open>r\<close>: the state after \<open>k\<close> draws,
  the result of draw number \<open>k\<close>, and whether the first \<open>n\<close> draws all return an array.
\<close>

fun rng_after :: "'r sampler \<Rightarrow> 'r \<Rightarrow> nat \<Rightarrow> 'r" where
  "rng_after aux r 0 = r"
| "rng_after aux r (Suc k) = snd (aux (rng_after aux r k))"

definition nth_draw :: "'r sampler \<Rightarrow> 'r \<Rightarrow> nat \<Rightarrow> error + ndarray" where
  "nth_draw aux r k = fst (aux (rng_after aux r k))"

fun draws_ok :: "'r sampler \<Rightarrow> 'r \<Rightarrow> nat \<Rightarrow> bool" where
  "draws_ok aux r 0 = True"
| "draws_ok aux r (Suc n) =
     (draws_ok aux r n \<and> (case nth_draw aux r n of Inl e \<Rightarrow> False | Inr a \<Rightarrow> True))"

text \<open>Whether two generators both yield at pull \<open>i\<close> frames that pass the test of the
  harness.\<close>

definition agree :: "'a generator \<Rightarrow> 'b generator \<Rightarrow> nat \<Rightarrow> bool" where
  "agree g0 g1 i =
     (case pull g0 i of
        Inl e \<Rightarrow> False
      | Inr f0 \<Rightarrow> (case pull g1 i of Inl e \<Rightarrow> False | Inr f1 \<Rightarrow> frame_match f0 f1))"

text \<open>
  A stream for examples: it yields the 1 by 1 array \<open>[[v]]\<close> with metadata \<open>[0]\<close> for
  ever, and its state is the number of frames pulled from it so far.
\<close>

definition counting_stream :: "elem \<Rightarrow> nat generator" where
  "counting_stream v = (\<lambda>k. (Inr (\<lparr>shape = (1, 1), data = [v]\<rparr>, [0]), Suc k), 0)"

text \<open>
  What the comparison returns when it leaves the loop in iteration \<open>m\<close>: the exception of
  \<^verbatim>\<open>g0.next()\<close>, raised before \<^verbatim>\<open>g1.next()\<close> is called; or the exception of
  \<^verbatim>\<open>g1.next()\<close>; or \<^verbatim>\<open>False\<close> from the \<^verbatim>\<open>return\<close> inside the loop.
\<close>

definition stop_at ::
  "'a generator \<Rightarrow> 'b generator \<Rightarrow> nat \<Rightarrow> (error + bool) \<times> 'a generator \<times> 'b generator"
where
  "stop_at g0 g1 m =
     (case pull g0 m of
        Inl e \<Rightarrow> (Inl e, advance g0 (Suc m), advance g1 m)
      | Inr f0 \<Rightarrow>
          (case pull g1 m of
             Inl e \<Rightarrow> (Inl e, advance g0 (Suc m), advance g1 (Suc m))
           | Inr f1 \<Rightarrow> (Inr False, advance g0 (Suc m), advance g1 (Suc m))))"

text \<open>
  Streams for examples, with the number of pulls so far as their state: a stream whose
  pull number \<open>k\<close> returns what a script says; one that yields \<open>[[0]]\<close> twice and
  \<open>[[1]]\<close> from then on; one that yields \<open>[[0]]\<close> once and is exhausted.
\<close>

definition scripted_stream :: "(nat \<Rightarrow> error + frame) \<Rightarrow> nat generator" where
  "scripted_stream script = (\<lambda>k. (script k, Suc k), 0)"

definition late_change :: "nat generator" where
  "late_change =
     scripted_stream
       (\<lambda>k. Inr (\<lparr>shape = (1, 1), data = [if k < 2 then Num 0 else Num 1]\<rparr>, [0]))"

definition short_stream :: "nat generator" where
  "short_stream =
     scripted_stream
       (\<lambda>k. if k < 1 then Inr (\<lparr>shape = (1, 1), data = [Num 0]\<rparr>, [0]) else Inl StopIteration)"

text \<open>
  A library for examples: the state of the random generator is a counter started at the
  seed, and draw number \<open>k\<close> is the 1 by 1 field holding the counter's value scaled by
  \<open>scale\<close>. \<open>toy_draw\<close> is the call of such a pattern object.
\<close>

definition toy_pattern :: "pattern_args \<Rightarrow> nat pattern" where
  "toy_pattern args r = (Inr \<lparr>extent = (1, 1), samples = [scale args * of_nat r]\<rparr>, Suc r)"

definition toy_draw :: "pattern_args \<Rightarrow> nat sampler" where
  "toy_draw args = pattern_call (toy_pattern args)"

definition toy_imagen :: "nat imagen" where
  "toy_imagen = \<lparr>imagen_SparseNoise = (\<lambda>g. toy_pattern), imagen_DenseNoise = toy_pattern,
                 RandomState = nat\<rparr>"

text \<open>
  A reference generator whose body has built the pattern object \<open>aux\<close> and the random
  generator state \<open>r\<close>, in state \<open>s\<close>.
\<close>

definition ref_gen :: "'r sampler \<Rightarrow> 'r \<Rightarrow> 'r ref_state \<Rightarrow> 'r ref_state generator" where
  "ref_gen aux r s = (reference_step (Inr (aux, r)), s)"

section \<open>The stimulus classes under test\<close>

text \<open>
  Modelled from the spec: the module \<^verbatim>\<open>mozaik.stimuli.vision.topographica_based\<close>
  (imported as \<^verbatim>\<open>topo\<close>) is missing; of its classes only the calls in the test module are
  at hand. A stimulus object is a record of the keyword arguments it was built from
  (specification, section 3: StimulusGeometry, NoiseConfig and the seed), with the
  \<^verbatim>\<open>transparent\<close> attribute of the base class; a noise stimulus extends it with the noise
  parameters and its class.
\<close>

record TopographicaBasedVisualStimulus =
  size_x :: pynum
  size_y :: pynum
  location_x :: pynum
  location_y :: pynum
  transparent :: bool

record NoiseStimulus = TopographicaBasedVisualStimulus +
  variant :: noise_class
  grid_size :: pynum
  grid :: bool
  background_luminance :: pynum
  density :: pynum
  time_per_image :: pynum
  frame_duration :: pynum
  experiment_seed :: int

text \<open>
  Modelled from the spec: the constructor of \<^verbatim>\<open>topo.TopographicaBasedVisualStimulus\<close> is
  missing. Specification, section 4.2: "The transparent property of the base
  visual-stimulus abstraction is always false for this family."
\<close>

definition TopographicaBasedVisualStimulus_init ::
  "pynum \<Rightarrow> pynum \<Rightarrow> pynum \<Rightarrow> pynum \<Rightarrow> TopographicaBasedVisualStimulus"
where
  "TopographicaBasedVisualStimulus_init sx sy lx ly =
     \<lparr>size_x = sx, size_y = sy, location_x = lx, location_y = ly, transparent = False\<rparr>"

text \<open>
  \<^verbatim>\<open>
  class DummyTBVS(topo.TopographicaBasedVisualStimulus):
      def frames(self):
          return []
  \<close>
  The subclass overrides \<^verbatim>\<open>frames\<close> only; it is constructed by the base constructor.
\<close>

definition DummyTBVS :: "pynum \<Rightarrow> pynum \<Rightarrow> pynum \<Rightarrow> pynum \<Rightarrow> TopographicaBasedVisualStimulus" where
  "DummyTBVS sx sy lx ly = TopographicaBasedVisualStimulus_init sx sy lx ly"

text \<open>
  \<^verbatim>\<open>
  def test_nontransparent(self):
      t = DummyTBVS(size_x=1, size_y=1, location_x=0.0, location_y=0.0)
      assert not t.transparent
  \<close>
\<close>

definition test_nontransparent :: "error + unit" where
  "test_nontransparent =
     (let t = DummyTBVS (PyInt 1) (PyInt 1) (PyFloat 0) (PyFloat 0)
      in if \<not> transparent t then Inr () else Inl AssertionError)"

text \<open>Whether a rational is a whole number.\<close>

definition integral :: "rat \<Rightarrow> bool" where
  "integral q = (of_int \<lfloor>q\<rfloor> = q)"

text \<open>
  Modelled from the spec: the constructors \<^verbatim>\<open>topo.SparseNoise\<close> and \<^verbatim>\<open>topo.DenseNoise\<close>
  are missing. Specification, section 4.2: construction fails with an
  AssertionError-equivalent "when time_per_image is not an exact integer multiple of
  frame_duration", and with a ValueError-equivalent "when grid_size is non-positive or
  non-integral", and "this applies to both sparse and dense variants"; section 7: an error
  is "raised at construction when geometry or density parameters are non-positive". The
  checks are made in this order; the error of section 7 (ConfigurationError there) is the
  ValueError-equivalent. Section 4.2 adds that the dense variant "never accepts
  grid=true" without naming an error; that is left out, and the tests pass
  \<^verbatim>\<open>grid=False\<close> to the dense class. The keyword arguments are in the order in which
  \<^verbatim>\<open>topo_frames\<close> writes them.
\<close>

definition topo_Noise ::
  "noise_class \<Rightarrow> pynum \<Rightarrow> bool \<Rightarrow> pynum \<Rightarrow> pynum \<Rightarrow> pynum \<Rightarrow> pynum \<Rightarrow> pynum \<Rightarrow> pynum \<Rightarrow>
   pynum \<Rightarrow> pynum \<Rightarrow> int \<Rightarrow> error + NoiseStimulus"
where
  "topo_Noise cls gs g bl d sx sy lx ly tpi fd seed =
     (if val fd = 0 \<or> \<not> integral (val tpi / val fd) then Inl AssertionError
      else if val gs \<le> 0 \<or> \<not> integral (val gs) then Inl ValueError
      else if val sx \<le> 0 \<or> val sy \<le> 0 \<or> val d \<le> 0 then Inl ValueError
      else Inr (TopographicaBasedVisualStimulus.extend
                  (TopographicaBasedVisualStimulus_init sx sy lx ly)
                  (NoiseStimulus.fields cls gs g bl d tpi fd seed)))"

text \<open>
  Modelled from the spec: the state of a noise stimulus generator is missing.
  Specification, section 3: the generator is "stateful only in tracking frames remaining
  before next resample", and section 5: it "exclusively owns one random source and one
  currently held frame slot". The record holds the field, if any, the frames of that
  field still to be returned, and the random source.
\<close>

record 'r hold_state =
  held :: "ndarray option"
  countdown :: nat
  random_source :: 'r

text \<open>
  Modelled from the spec: the frame generator of the noise classes is missing.
  Specification, section 4.2: "frames_per_image = time_per_image / frame_duration".
\<close>

definition frames_per_held_image :: "NoiseStimulus \<Rightarrow> nat" where
  "frames_per_held_image st = nat \<lfloor>val (time_per_image st) / val (frame_duration st)\<rfloor>"

text \<open>
  Modelled from the spec: the call of the sampler by the noise classes is missing.
  Specification, section 4.1: "grid_density = grid_size / size_x", scale
  "2 * background_luminance", offset 0. The specification does not say how the bounds and
  the pixel densities are derived from the geometry; section 4.3 compares the generator
  with the reference "given matching configuration and seed", so they are taken as the
  reference passes them: radius \<^verbatim>\<open>size_x / 2\<close>, and \<^verbatim>\<open>density\<close> for both pixel densities.
\<close>

definition sampler_args :: "NoiseStimulus \<Rightarrow> pattern_args" where
  "sampler_args st =
     \<lparr>grid_density = val (grid_size st) / val (size_x st), offset = 0,
      scale = 2 * val (background_luminance st), bounds_radius = val (half (size_x st)),
      xdensity = val (density st), ydensity = val (density st)\<rparr>"

text \<open>
  Modelled from the spec: the sampler of each noise class (specification, section 4.1) is
  the library's sparse pattern with the \<^verbatim>\<open>grid\<close> flag, or its dense pattern, which has no
  such flag.
\<close>

definition Random_Field_Sampler :: "'r imagen \<Rightarrow> NoiseStimulus \<Rightarrow> 'r sampler" where
  "Random_Field_Sampler lib st =
     pattern_call
       (case variant st of
          Sparse \<Rightarrow> imagen_SparseNoise lib (grid st) (sampler_args st)
        | Dense \<Rightarrow> imagen_DenseNoise lib (sampler_args st))"

text \<open>
  Modelled from the spec: specification, section 4.2: "invoke the Random Field Sampler to
  obtain a new held field and reset the countdown". The frame returned by the same call is
  the first of the \<open>fpi\<close> frames of the new field, so \<open>fpi - 1\<close> remain. Metadata: "for noise
  stimuli this is always [0]". An error of the sampler propagates and leaves the state as
  it was (section 7: "Errors are not recovered internally; they propagate to the caller").
\<close>

definition sample_new ::
  "'r sampler \<Rightarrow> nat \<Rightarrow> 'r hold_state \<Rightarrow> (error + frame) \<times> 'r hold_state"
where
  "sample_new sample fpi s =
     (case sample (random_source s) of
        (Inl e, r') \<Rightarrow> (Inl e, s)
      | (Inr a, r') \<Rightarrow>
          (Inr (a, [0]), \<lparr>held = Some a, countdown = fpi - 1, random_source = r'\<rparr>))"

text \<open>
  Modelled from the spec: specification, section 4.2: "On the first call and every time
  the countdown reaches zero, invoke the Random Field Sampler to obtain a new held field
  and reset the countdown; otherwise return the previously held field (same array
  reference/metadata) without consuming new randomness."
\<close>

definition next_frame ::
  "'r sampler \<Rightarrow> nat \<Rightarrow> 'r hold_state \<Rightarrow> (error + frame) \<times> 'r hold_state"
where
  "next_frame sample fpi s =
     (case held s of
        None \<Rightarrow> sample_new sample fpi s
      | Some a \<Rightarrow>
          if countdown s = 0 then sample_new sample fpi s
          else (Inr (a, [0]), s\<lparr>countdown := countdown s - 1\<rparr>))"

text \<open>
  Modelled from the spec: the attribute \<^verbatim>\<open>_frames\<close> of a noise stimulus, the generator that
  \<^verbatim>\<open>topo_frames\<close> returns. Specification, section 3: "The RandomSource is created once",
  from the seed fixed at construction.
\<close>

definition noise_frames :: "'r imagen \<Rightarrow> NoiseStimulus \<Rightarrow> 'r hold_state generator" where
  "noise_frames lib st =
     (next_frame (Random_Field_Sampler lib st) (frames_per_held_image st),
      \<lparr>held = None, countdown = 0, random_source = RandomState lib (experiment_seed st)\<rparr>)"

section \<open>The test methods that use the stimulus classes\<close>

text \<open>
  \<^verbatim>\<open>
  def topo_frames(self, grid_size=..., size_x=..., grid=..., background_luminance=...,
                  density=...):
      snclass = topo.SparseNoise(
          grid_size=grid_size,
          grid=grid,
          background_luminance=background_luminance,
          density=density,
          size_x=size_x,
          size_y=self.default_topo["size_y"],
          location_x=self.default_topo["location_x"],
          location_y=self.default_topo["location_y"],
          time_per_image=self.default_noise["time_per_image"],
          frame_duration=self.default_topo["frame_duration"],
          experiment_seed=self.experiment_seed,
      )
      return snclass._frames
  \<close>
  \<^verbatim>\<open>TestDenseNoise.topo_frames\<close> has no \<^verbatim>\<open>grid\<close> parameter and passes \<^verbatim>\<open>grid=False\<close> to
  \<^verbatim>\<open>topo.DenseNoise\<close>. An exception of the constructor leaves the method.
\<close>

definition topo_frames ::
  "'r imagen \<Rightarrow> noise_class \<Rightarrow> pynum \<Rightarrow> pynum \<Rightarrow> bool \<Rightarrow> pynum \<Rightarrow> pynum \<Rightarrow>
   error + 'r hold_state generator"
where
  "topo_frames lib cls gs sx g bl d =
     (case topo_Noise cls gs (case cls of Sparse \<Rightarrow> g | Dense \<Rightarrow> False) bl d sx
             default_topo_size_y default_topo_location_x default_topo_location_y
             default_noise_time_per_image default_topo_frame_duration
             TestNoise_experiment_seed of
        Inl e \<Rightarrow> Inl e
      | Inr snclass \<Rightarrow> Inr (noise_frames lib snclass))"

text \<open>
  \<^verbatim>\<open>
  def check_frames(self, **params):
      rf = self.reference_frames(**params)
      tf = self.topo_frames(**params)
      assert self.frames_equal(rf, tf, self.num_frames)
  \<close>
\<close>

definition check_frames ::
  "'r imagen \<Rightarrow> noise_class \<Rightarrow> pynum \<Rightarrow> pynum \<Rightarrow> bool \<Rightarrow> pynum \<Rightarrow> pynum \<Rightarrow> error + unit"
where
  "check_frames lib cls gs sx g bl d =
     (let rf = reference_frames lib cls TestNoise_experiment_seed gs sx g bl d
      in case topo_frames lib cls gs sx g bl d of
           Inl e \<Rightarrow> Inl e
         | Inr tf \<Rightarrow>
             (case fst (frames_equal rf tf num_frames) of
                Inl e \<Rightarrow> Inl e
              | Inr same \<Rightarrow> if same then Inr () else Inl AssertionError))"

text \<open>
  \<^verbatim>\<open>
  @pytest.mark.parametrize("grid_size", [-1, 0, 0.9, 0.9999999999])
  def test_min_grid_size(self, grid_size):
      if type(self) == TestNoise:
          pytest.skip("Only run in child classes.")
      with pytest.raises(ValueError):
          self.check_frames(grid_size=grid_size)
  \<close>
  The other parameters take the defaults of \<^verbatim>\<open>reference_frames\<close> and \<^verbatim>\<open>topo_frames\<close>. The
  result is whether the test passes: whether \<^verbatim>\<open>check_frames\<close> raises ValueError.
\<close>

definition test_min_grid_size :: "'r imagen \<Rightarrow> noise_class \<Rightarrow> pynum \<Rightarrow> bool" where
  "test_min_grid_size lib cls gs =
     (case check_frames lib cls gs default_topo_size_x default_noise_grid
             default_topo_background_luminance default_topo_density of
        Inl e \<Rightarrow> e = ValueError
      | Inr u \<Rightarrow> False)"

text \<open>A noise stimulus generator with sampler \<open>aux\<close> and \<open>K\<close> frames per image, in state \<open>s\<close>.\<close>

definition hold_gen :: "'r sampler \<Rightarrow> nat \<Rightarrow> 'r hold_state \<Rightarrow> 'r hold_state generator" where
  "hold_gen aux K s = (next_frame aux K, s)"

section \<open>The reference generators with object identity\<close>

text \<open>
  Whether two frames carry the same array object is not visible in a model that yields
  array values. Here the reference generator is modelled once more, over a store of
  objects: an address is an index into the store, and creating an object appends it. The
  body of the generator is the same text as above; a call of the pattern object creates
  the array it returns, and each evaluation of the list display \<^verbatim>\<open>[0]\<close> creates a list.
  A frame is the pair of the addresses of its array and of its metadata list.
\<close>

datatype obj = ArrayObj ndarray | ListObj "int list"

type_synonym heap = "obj list"

type_synonym addr = nat

definition alloc :: "heap \<Rightarrow> obj \<Rightarrow> addr \<times> heap" where
  "alloc h v = (length h, h @ [v])"

datatype 'r ref_sstate =
    SNotStarted
  | SSuspended "'r sampler" addr nat 'r
  | SFinished

text \<open>\<^verbatim>\<open>aux2 = aux()\<close>, then the first \<^verbatim>\<open>yield (aux2, [0])\<close> of the inner loop.\<close>

definition resample_store ::
  "'r sampler \<Rightarrow> 'r \<Rightarrow> heap \<Rightarrow> (error + addr \<times> addr) \<times> heap \<times> 'r ref_sstate"
where
  "resample_store aux r h =
     (case aux r of
        (Inl e, r') \<Rightarrow> (Inl e, h, SFinished)
      | (Inr a, r') \<Rightarrow>
          (case alloc h (ArrayObj a) of
             (aux2, h1) \<Rightarrow>
               (case alloc h1 (ListObj [0]) of
                  (meta, h2) \<Rightarrow> (Inr (aux2, meta), h2, SSuspended aux aux2 0 r'))))"

text \<open>
  One call of \<^verbatim>\<open>next()\<close>. In a later iteration of the inner loop the variable \<^verbatim>\<open>aux2\<close>
  still refers to the array drawn at the start of the loop; only the list is new.
\<close>

fun reference_step_store ::
  "error + 'r sampler \<times> 'r \<Rightarrow> heap \<times> 'r ref_sstate \<Rightarrow>
   (error + addr \<times> addr) \<times> heap \<times> 'r ref_sstate"
where
  "reference_step_store body (h, SNotStarted) =
     (case body of Inl e \<Rightarrow> (Inl e, h, SFinished) | Inr (aux, r) \<Rightarrow> resample_store aux r h)"
| "reference_step_store body (h, SSuspended aux aux2 i r) =
     (if Suc i < frames_per_image then
        (case alloc h (ListObj [0]) of
           (meta, h1) \<Rightarrow> (Inr (aux2, meta), h1, SSuspended aux aux2 (Suc i) r))
      else resample_store aux r h)"
| "reference_step_store body (h, SFinished) = (Inl StopIteration, h, SFinished)"

text \<open>The store and the generator state after \<open>k\<close> pulls, and the result of the pull after those.\<close>

fun store_advance ::
  "error + 'r sampler \<times> 'r \<Rightarrow> heap \<times> 'r ref_sstate \<Rightarrow> nat \<Rightarrow> heap \<times> 'r ref_sstate"
where
  "store_advance body hs 0 = hs"
| "store_advance body hs (Suc k) = snd (reference_step_store body (store_advance body hs k))"

definition store_pull ::
  "error + 'r sampler \<times> 'r \<Rightarrow> heap \<times> 'r ref_sstate \<Rightarrow> nat \<Rightarrow> error + addr \<times> addr"
where
  "store_pull body hs i = fst (reference_step_store body (store_advance body hs i))"

section \<open>Generators that share a process\<close>

text \<open>
  The two generator objects that the harness compares live in one Python process, and so
  do the random generator objects that their bodies create. To state that the two do not
  disturb each other, the reference generator and the harness are modelled once more over
  a world: the list of the random generator objects of the process, addressed by index.
  \<^verbatim>\<open>numpy.random.RandomState(seed=...)\<close> appends a new object. A pattern object keeps the
  address of the generator it was given as \<^verbatim>\<open>random_generator\<close>; a call \<^verbatim>\<open>aux()\<close> draws
  from the object at that address and leaves the new state there.
\<close>

type_synonym 'r world = "'r list"

text \<open>
  The states of a reference generator: not started; suspended at the \<^verbatim>\<open>yield\<close> in
  iteration \<open>i\<close>, with the pattern object, the address of its random generator and the
  array \<^verbatim>\<open>aux2\<close>; finished.
\<close>

datatype 'r wref_state =
    WNotStarted
  | WSuspended "'r sampler" nat ndarray nat
  | WFinished

text \<open>\<^verbatim>\<open>aux2 = aux()\<close>, then the first \<^verbatim>\<open>yield (aux2, [0])\<close> of the inner loop.\<close>

definition wresample ::
  "'r sampler \<Rightarrow> nat \<Rightarrow> 'r world \<Rightarrow> (error + frame) \<times> 'r world \<times> 'r wref_state"
where
  "wresample aux a w =
     (case aux (w ! a) of
        (Inl e, r') \<Rightarrow> (Inl e, w[a := r'], WFinished)
      | (Inr aux2, r') \<Rightarrow> (Inr (aux2, [0]), w[a := r'], WSuspended aux a aux2 0))"

text \<open>
  One call of \<^verbatim>\<open>next()\<close> on a reference generator. The first call runs the body from its
  start: it creates the random generator in the world and the pattern object that uses it.
\<close>

fun wreference_step ::
  "error + 'r sampler \<times> 'r \<Rightarrow> 'r world \<times> 'r wref_state \<Rightarrow>
   (error + frame) \<times> 'r world \<times> 'r wref_state"
where
  "wreference_step body (w, WNotStarted) =
     (case body of
        Inl e \<Rightarrow> (Inl e, w, WFinished)
      | Inr (aux, r) \<Rightarrow> wresample aux (length w) (w @ [r]))"
| "wreference_step body (w, WSuspended aux a aux2 i) =
     (if Suc i < frames_per_image then (Inr (aux2, [0]), w, WSuspended aux a aux2 (Suc i))
      else wresample aux a w)"
| "wreference_step body (w, WFinished) = (Inl StopIteration, w, WFinished)"

text \<open>
  \<^verbatim>\<open>frames_equal\<close> over two generators whose calls of \<^verbatim>\<open>next()\<close> act on the world: in
  each iteration \<^verbatim>\<open>g0.next()\<close>, then \<^verbatim>\<open>g1.next()\<close> on the world as the first call left
  it, then the test of the two frames.
\<close>

fun frames_equal_world ::
  "('w \<times> 'a \<Rightarrow> (error + frame) \<times> 'w \<times> 'a) \<Rightarrow> ('w \<times> 'b \<Rightarrow> (error + frame) \<times> 'w \<times> 'b) \<Rightarrow>
   nat \<Rightarrow> 'w \<times> 'a \<times> 'b \<Rightarrow> (error + bool) \<times> 'w \<times> 'a \<times> 'b"
where
  "frames_equal_world nx0 nx1 0 (w, g0, g1) = (Inr True, w, g0, g1)"
| "frames_equal_world nx0 nx1 (Suc k) (w, g0, g1) =
     (case nx0 (w, g0) of
        (Inl e, w1, g0') \<Rightarrow> (Inl e, w1, g0', g1)
      | (Inr f0, w1, g0') \<Rightarrow>
          (case nx1 (w1, g1) of
             (Inl e, w2, g1') \<Rightarrow> (Inl e, w2, g0', g1')
           | (Inr f1, w2, g1') \<Rightarrow>
               if \<not> frame_match f0 f1 then (Inr False, w2, g0', g1')
               else frames_equal_world nx0 nx1 k (w2, g0', g1')))"




section \<open>Properties of the harness\<close>

text \<open>
  C10. For \<open>n = 0\<close> the comparison returns true for every pair of streams, and no frame
  is pulled: both generators are returned in the state they were passed in, whatever their
  step functions are.
\<close>

theorem frames_equal_zero:
  "frames_equal g0 g1 0 = (Inr True, g0, g1)"
  by (simp add: frames_equal_def)


lemma advance_Suc_front: "advance g (Suc k) = advance (snd (gen_next g)) k"
  by (induction k) simp_all

lemma pull_0: "pull g 0 = fst (gen_next g)"
  by (simp add: pull_def)

lemma pull_Suc_front: "pull g (Suc i) = pull (snd (gen_next g)) i"
  unfolding pull_def by (simp only: advance_Suc_front)

lemma agree_Suc_front: "agree g0 g1 (Suc i) = agree (snd (gen_next g0)) (snd (gen_next g1)) i"
  by (simp only: agree_def pull_Suc_front)

lemma agree_0:
  "agree g0 g1 0 =
     (case fst (gen_next g0) of Inl e \<Rightarrow> False
      | Inr f0 \<Rightarrow> (case fst (gen_next g1) of Inl e \<Rightarrow> False | Inr f1 \<Rightarrow> frame_match f0 f1))"
  by (simp add: agree_def pull_0 split: sum.splits)

lemma loop_all_agree:
  "(\<And>i. i < n \<Longrightarrow> agree g0 g1 i) \<Longrightarrow>
   frames_equal_loop g0 g1 n = (Inr True, advance g0 n, advance g1 n)"
proof (induction n arbitrary: g0 g1)
  case 0
  show ?case by simp
next
  case (Suc n)
  have first: "agree g0 g1 0" using Suc.prems by simp
  have rest: "\<And>i. i < n \<Longrightarrow> agree (snd (gen_next g0)) (snd (gen_next g1)) i"
    using Suc.prems[of "Suc _"] by (simp add: agree_Suc_front)
  have ih: "frames_equal_loop (snd (gen_next g0)) (snd (gen_next g1)) n =
      (Inr True, advance (snd (gen_next g0)) n, advance (snd (gen_next g1)) n)"
    by (rule Suc.IH) (rule rest)
  obtain r0 h0 where n0: "gen_next g0 = (r0, h0)" by (cases "gen_next g0")
  obtain r1 h1 where n1: "gen_next g1 = (r1, h1)" by (cases "gen_next g1")
  from first n0 n1 obtain f0 f1 where "r0 = Inr f0" "r1 = Inr f1" "frame_match f0 f1"
    by (auto simp: agree_0 split: sum.splits)
  with ih n0 n1 show ?case
    by (simp add: advance_Suc_front del: advance.simps)
qed

lemma advance_counting_stream:
  "advance (counting_stream v) k = (fst (counting_stream v), k)"
  by (induction k) (simp_all add: counting_stream_def gen_next_def)

lemma pull_counting_stream:
  "pull (counting_stream v) i = Inr (\<lparr>shape = (1, 1), data = [v]\<rparr>, [0])"
  by (simp add: pull_def advance_counting_stream) (simp add: counting_stream_def gen_next_def)

lemma stop_at_Suc_front:
  "stop_at g0 g1 (Suc m) = stop_at (snd (gen_next g0)) (snd (gen_next g1)) m"
  unfolding stop_at_def pull_Suc_front advance_Suc_front ..

lemma loop_first_stop:
  "m < n \<Longrightarrow> (\<And>j. j < m \<Longrightarrow> agree g0 g1 j) \<Longrightarrow> \<not> agree g0 g1 m \<Longrightarrow>
   frames_equal_loop g0 g1 n = stop_at g0 g1 m"
proof (induction m arbitrary: g0 g1 n)
  case 0
  then obtain k where n: "n = Suc k" by (cases n) auto
  obtain r0 h0 where n0: "gen_next g0 = (r0, h0)" by (cases "gen_next g0")
  obtain r1 h1 where n1: "gen_next g1 = (r1, h1)" by (cases "gen_next g1")
  from "0.prems"(3) n0 n1 show ?case
    by (cases r0; cases r1) (simp_all add: n stop_at_def pull_0 agree_0)
next
  case (Suc m)
  then obtain k where n: "n = Suc k" and mk: "m < k" by (cases n) auto
  have first: "agree g0 g1 0" using Suc.prems(2) by simp
  have rest: "\<And>j. j < m \<Longrightarrow> agree (snd (gen_next g0)) (snd (gen_next g1)) j"
    using Suc.prems(2)[of "Suc _"] by (simp add: agree_Suc_front)
  have last: "\<not> agree (snd (gen_next g0)) (snd (gen_next g1)) m"
    using Suc.prems(3) by (simp add: agree_Suc_front)
  have ih: "frames_equal_loop (snd (gen_next g0)) (snd (gen_next g1)) k =
      stop_at (snd (gen_next g0)) (snd (gen_next g1)) m"
    using mk rest last by (rule Suc.IH)
  obtain r0 h0 where n0: "gen_next g0 = (r0, h0)" by (cases "gen_next g0")
  obtain r1 h1 where n1: "gen_next g1 = (r1, h1)" by (cases "gen_next g1")
  from first n0 n1 obtain e0 e1 where "r0 = Inr e0" "r1 = Inr e1" "frame_match e0 e1"
    by (auto simp: agree_0 split: sum.splits)
  with ih n0 n1 show ?case
    unfolding n stop_at_Suc_front by simp
qed

lemma stop_at_bounds:
  "\<exists>k0 k1. k0 \<le> Suc m \<and> k1 \<le> Suc m \<and> snd (stop_at g0 g1 m) = (advance g0 k0, advance g1 k1)"
proof (cases "pull g0 m")
  case (Inl e)
  then have "snd (stop_at g0 g1 m) = (advance g0 (Suc m), advance g1 m)"
    by (simp add: stop_at_def)
  then show ?thesis by (intro exI[of _ "Suc m"] exI[of _ m]) simp
next
  case (Inr f0)
  then have "snd (stop_at g0 g1 m) = (advance g0 (Suc m), advance g1 (Suc m))"
    by (cases "pull g1 m") (simp_all add: stop_at_def)
  then show ?thesis by (intro exI[of _ "Suc m"]) simp
qed

lemma stop_at_not_True: "fst (stop_at g0 g1 m) \<noteq> Inr True"
  by (cases "pull g0 m"; cases "pull g1 m") (simp_all add: stop_at_def)

text \<open>
  C6 (amended). For any two streams and any \<open>n\<close>, \<open>frames_equal\<close> pulls at most \<open>n\<close>
  frames from each stream. It returns true if and only if, at every index below \<open>n\<close>,
  both streams yield a frame and the frames agree: \<^verbatim>\<open>numpy.array_equal\<close> holds of the
  arrays (same shape, and \<^verbatim>\<open>==\<close> at every position, which fails on NaN) and the metadata
  lists are equal. It has then pulled exactly \<open>n\<close> frames from each stream. Otherwise it
  leaves the loop at the first index \<open>m\<close> where this fails: if the first stream raises
  there, the exception propagates after \<open>m + 1\<close> pulls from the first stream and \<open>m\<close>
  from the second; if the second raises, after \<open>m + 1\<close> pulls from each; if both yield,
  it returns false after \<open>m + 1\<close> pulls from each.
\<close>

theorem frames_equal_spec:
  "(fst (frames_equal g0 g1 (int n)) = Inr True \<longleftrightarrow> (\<forall>i<n. agree g0 g1 i)) \<and>
   ((\<forall>i<n. agree g0 g1 i) \<longrightarrow>
      frames_equal g0 g1 (int n) = (Inr True, advance g0 n, advance g1 n)) \<and>
   (\<forall>m<n. (\<forall>j<m. agree g0 g1 j) \<and> \<not> agree g0 g1 m \<longrightarrow>
      frames_equal g0 g1 (int n) = stop_at g0 g1 m) \<and>
   (\<exists>k0 k1. k0 \<le> n \<and> k1 \<le> n \<and>
      snd (frames_equal g0 g1 (int n)) = (advance g0 k0, advance g1 k1))"
proof -
  have all: "frames_equal g0 g1 (int n) = (Inr True, advance g0 n, advance g1 n)"
    if "\<forall>i<n. agree g0 g1 i"
    using that by (simp add: frames_equal_def loop_all_agree)
  have stop: "frames_equal g0 g1 (int n) = stop_at g0 g1 m"
    if "m < n" and "\<forall>j<m. agree g0 g1 j" and "\<not> agree g0 g1 m" for m
    using that by (simp add: frames_equal_def loop_first_stop)
  have first: "\<exists>m<n. (\<forall>j<m. agree g0 g1 j) \<and> \<not> agree g0 g1 m"
    if neg: "\<not> (\<forall>i<n. agree g0 g1 i)"
  proof -
    define m where "m = (LEAST i. \<not> agree g0 g1 i)"
    from neg obtain i where i: "i < n" "\<not> agree g0 g1 i" by blast
    have nm: "\<not> agree g0 g1 m" unfolding m_def using i(2) by (rule LeastI)
    have "m \<le> i" unfolding m_def using i(2) by (rule Least_le)
    with i(1) have mn: "m < n" by simp
    have "agree g0 g1 j" if "j < m" for j
      using that not_less_Least unfolding m_def by blast
    with mn nm show ?thesis by blast
  qed
  have a: "fst (frames_equal g0 g1 (int n)) = Inr True \<longleftrightarrow> (\<forall>i<n. agree g0 g1 i)"
  proof (cases "\<forall>i<n. agree g0 g1 i")
    case True
    with all show ?thesis by simp
  next
    case False
    from first[OF False] obtain m where "m < n" "\<forall>j<m. agree g0 g1 j" "\<not> agree g0 g1 m"
      by blast
    then have "frames_equal g0 g1 (int n) = stop_at g0 g1 m" by (rule stop)
    then have "fst (frames_equal g0 g1 (int n)) \<noteq> Inr True"
      by (simp add: stop_at_not_True)
    with False show ?thesis by simp
  qed
  have b: "(\<forall>i<n. agree g0 g1 i) \<longrightarrow>
      frames_equal g0 g1 (int n) = (Inr True, advance g0 n, advance g1 n)"
    using all by blast
  have c: "\<forall>m<n. (\<forall>j<m. agree g0 g1 j) \<and> \<not> agree g0 g1 m \<longrightarrow>
      frames_equal g0 g1 (int n) = stop_at g0 g1 m"
    using stop by blast
  have d: "\<exists>k0 k1. k0 \<le> n \<and> k1 \<le> n \<and>
      snd (frames_equal g0 g1 (int n)) = (advance g0 k0, advance g1 k1)"
  proof (cases "\<forall>i<n. agree g0 g1 i")
    case True
    with all have "snd (frames_equal g0 g1 (int n)) = (advance g0 n, advance g1 n)" by simp
    then show ?thesis by (intro exI[of _ n]) simp
  next
    case False
    from first[OF False] obtain m where m: "m < n" "\<forall>j<m. agree g0 g1 j" "\<not> agree g0 g1 m"
      by blast
    then have e: "frames_equal g0 g1 (int n) = stop_at g0 g1 m" by (rule stop)
    from stop_at_bounds[of m g0 g1] obtain k0 k1 where
      "k0 \<le> Suc m" "k1 \<le> Suc m" "snd (stop_at g0 g1 m) = (advance g0 k0, advance g1 k1)"
      by blast
    with m(1) e have "k0 \<le> n \<and> k1 \<le> n \<and>
        snd (frames_equal g0 g1 (int n)) = (advance g0 k0, advance g1 k1)"
      by simp
    then show ?thesis by blast
  qed
  show ?thesis by (rule conjI[OF a conjI[OF b conjI[OF c d]]])
qed


lemma advance_scripted_stream:
  "advance (scripted_stream script) k = (fst (scripted_stream script), k)"
  by (induction k) (simp_all add: scripted_stream_def gen_next_def)

lemma pull_scripted_stream: "pull (scripted_stream script) i = script i"
  by (simp add: pull_def advance_scripted_stream) (simp add: scripted_stream_def gen_next_def)

lemma agree_counting_late:
  "agree (counting_stream (Num 0)) late_change j = (j < 2)"
  by (simp add: agree_def pull_counting_stream late_change_def pull_scripted_stream
      frame_match_def array_equal_def elem_eq_def)

lemma agree_counting_short:
  "agree (counting_stream (Num 0)) short_stream j = (j < 1)"
  "agree short_stream (counting_stream (Num 0)) j = (j < 1)"
  by (simp_all add: agree_def pull_counting_stream short_stream_def pull_scripted_stream
      frame_match_def array_equal_def elem_eq_def)

lemma agree_counting_same:
  "agree (counting_stream (Num 0)) (counting_stream (Num 0)) j"
  by (simp add: agree_def pull_counting_stream frame_match_def array_equal_def elem_eq_def)

text \<open>
  The theorem at four pairs of streams: a first mismatch at index 2 of 5; a second stream
  exhausted at index 1; a first stream exhausted at index 1; equal streams over 3 frames.
\<close>

theorem frames_equal_spec_witness:
  "frames_equal (counting_stream (Num 0)) late_change 5 =
     (Inr False, advance (counting_stream (Num 0)) 3, advance late_change 3) \<and>
   frames_equal (counting_stream (Num 0)) short_stream 4 =
     (Inl StopIteration, advance (counting_stream (Num 0)) 2, advance short_stream 2) \<and>
   frames_equal short_stream (counting_stream (Num 0)) 4 =
     (Inl StopIteration, advance short_stream 2, advance (counting_stream (Num 0)) 1) \<and>
   frames_equal (counting_stream (Num 0)) (counting_stream (Num 0)) 3 =
     (Inr True, advance (counting_stream (Num 0)) 3, advance (counting_stream (Num 0)) 3)"
proof -
  have n5: "int 5 = 5" and n4: "int 4 = 4" and n3: "int 3 = 3" by simp_all
  have "frames_equal (counting_stream (Num 0)) late_change (int 5) =
      stop_at (counting_stream (Num 0)) late_change 2"
    using frames_equal_spec[of "counting_stream (Num 0)" late_change 5]
    by (simp add: agree_counting_late)
  then have a: "frames_equal (counting_stream (Num 0)) late_change 5 =
      (Inr False, advance (counting_stream (Num 0)) 3, advance late_change 3)"
    unfolding n5
    by (simp add: stop_at_def pull_counting_stream late_change_def pull_scripted_stream
        numeral_3_eq_3 del: advance.simps)
  have "frames_equal (counting_stream (Num 0)) short_stream (int 4) =
      stop_at (counting_stream (Num 0)) short_stream 1"
    using frames_equal_spec[of "counting_stream (Num 0)" short_stream 4]
    by (simp add: agree_counting_short)
  then have b: "frames_equal (counting_stream (Num 0)) short_stream 4 =
      (Inl StopIteration, advance (counting_stream (Num 0)) 2, advance short_stream 2)"
    unfolding n4
    by (simp add: stop_at_def pull_counting_stream short_stream_def pull_scripted_stream
        numeral_2_eq_2 del: advance.simps)
  have "frames_equal short_stream (counting_stream (Num 0)) (int 4) =
      stop_at short_stream (counting_stream (Num 0)) 1"
    using frames_equal_spec[of short_stream "counting_stream (Num 0)" 4]
    by (simp add: agree_counting_short)
  then have c: "frames_equal short_stream (counting_stream (Num 0)) 4 =
      (Inl StopIteration, advance short_stream 2, advance (counting_stream (Num 0)) 1)"
    unfolding n4
    by (simp add: stop_at_def pull_counting_stream short_stream_def pull_scripted_stream
        numeral_2_eq_2 del: advance.simps)
  have d: "frames_equal (counting_stream (Num 0)) (counting_stream (Num 0)) 3 =
      (Inr True, advance (counting_stream (Num 0)) 3, advance (counting_stream (Num 0)) 3)"
    using frames_equal_spec[of "counting_stream (Num 0)" "counting_stream (Num 0)" 3]
    unfolding n3 by (simp add: agree_counting_same)
  show ?thesis by (rule conjI[OF a conjI[OF b conjI[OF c d]]])
qed

text \<open>
  C6 as stated says that exactly \<open>n\<close> frames are pulled from each stream, and that the
  result is true exactly when the arrays are equal. For \<open>n = 2\<close> and two streams whose
  first frames differ, the comparison returns false and each stream has been pulled once
  (the state of a counting stream is the number of pulls). For two streams that both
  yield the same array holding NaN, the comparison returns false.
\<close>

theorem frames_equal_pulls_counterexample:
  "fst (frames_equal (counting_stream (Num 0)) (counting_stream (Num 1)) 2) = Inr False \<and>
   snd (fst (snd (frames_equal (counting_stream (Num 0)) (counting_stream (Num 1)) 2))) = 1 \<and>
   snd (snd (snd (frames_equal (counting_stream (Num 0)) (counting_stream (Num 1)) 2))) = 1 \<and>
   fst (frames_equal (counting_stream NaN) (counting_stream NaN) 1) = Inr False"
  by (simp add: frames_equal_def numeral_2_eq_2 counting_stream_def gen_next_def
      frame_match_def array_equal_def elem_eq_def)

lemma frames_per_image_2: "frames_per_image = 2"
  by (simp add: frames_per_image_def default_noise_time_per_image_def
      default_topo_frame_duration_def)

lemma draws_ok_mono: "draws_ok aux r n \<Longrightarrow> m \<le> n \<Longrightarrow> draws_ok aux r m"
proof (induction n)
  case 0
  then show ?case by simp
next
  case (Suc n)
  show ?case
  proof (cases "m = Suc n")
    case True
    with Suc.prems show ?thesis by simp
  next
    case False
    with Suc.prems have "m \<le> n" and "draws_ok aux r n" by simp_all
    then show ?thesis using Suc.IH by simp
  qed
qed

lemma draws_ok_nth:
  assumes "draws_ok aux r n" and "k < n"
  shows "nth_draw aux r k = Inr (projr (nth_draw aux r k))"
proof -
  from assms(2) have "Suc k \<le> n" by simp
  with assms(1) have "draws_ok aux r (Suc k)" by (rule draws_ok_mono)
  then show ?thesis by (cases "nth_draw aux r k") simp_all
qed

lemma aux_at:
  "aux (rng_after aux r k) = (nth_draw aux r k, rng_after aux r (Suc k))"
  by (simp add: nth_draw_def)

lemma gen_next_ref_gen:
  "gen_next (ref_gen aux r s) =
     (fst (reference_step (Inr (aux, r)) s), ref_gen aux r (snd (reference_step (Inr (aux, r)) s)))"
  by (simp add: gen_next_def ref_gen_def split: prod.splits)

lemma resample_ok:
  "aux r = (Inr a, r') \<Longrightarrow> resample aux r = (Inr (a, [0]), Suspended aux a 0 r')"
  by (simp add: resample_def)

lemma resample_at:
  assumes "nth_draw aux r k = Inr a"
  shows "resample aux (rng_after aux r k) =
           (Inr (a, [0]), Suspended aux a 0 (rng_after aux r (Suc k)))"
proof -
  have "aux (rng_after aux r k) = (Inr a, rng_after aux r (Suc k))"
    using aux_at[of aux r k] assms by simp
  then show ?thesis by (rule resample_ok)
qed

lemma ref_advance:
  "draws_ok aux r (Suc (i div 2)) \<Longrightarrow>
   advance (ref_gen aux r NotStarted) (Suc i) =
     ref_gen aux r (Suspended aux (projr (nth_draw aux r (i div 2))) (i mod 2)
       (rng_after aux r (Suc (i div 2))))"
proof (induction i)
  case 0
  then have d: "nth_draw aux r 0 = Inr (projr (nth_draw aux r 0))"
    by (auto intro: draws_ok_nth[of aux r "Suc 0"])
  have "resample aux r =
      (Inr (projr (nth_draw aux r 0), [0]),
       Suspended aux (projr (nth_draw aux r 0)) 0 (rng_after aux r (Suc 0)))"
    using resample_at[OF d] by simp
  then show ?case by (simp add: gen_next_ref_gen del: rng_after.simps)
next
  case (Suc i)
  let ?G = "ref_gen aux r NotStarted"
  let ?a = "projr (nth_draw aux r (i div 2))"
  have le: "Suc (i div 2) \<le> Suc (Suc i div 2)" by (simp add: div_le_mono)
  have ih: "advance ?G (Suc i) =
     ref_gen aux r (Suspended aux ?a (i mod 2) (rng_after aux r (Suc (i div 2))))"
    by (rule Suc.IH) (rule draws_ok_mono[OF Suc.prems le])
  have step: "advance ?G (Suc (Suc i)) =
     ref_gen aux r (snd (reference_step (Inr (aux, r))
        (Suspended aux ?a (i mod 2) (rng_after aux r (Suc (i div 2))))))"
    by (simp only: advance.simps(2)[of ?G "Suc i"] ih gen_next_ref_gen snd_conv)
  show ?case
  proof (cases "i mod 2 = 0")
    case True
    then have e: "Suc i div 2 = i div 2" "Suc i mod 2 = Suc 0" by presburger+
    show ?thesis unfolding step e True
      by (simp add: frames_per_image_2 del: rng_after.simps)
  next
    case False
    then have m: "i mod 2 = Suc 0" by presburger
    then have e: "Suc i div 2 = Suc (i div 2)" "Suc i mod 2 = 0" by presburger+
    have d: "nth_draw aux r (Suc (i div 2)) = Inr (projr (nth_draw aux r (Suc (i div 2))))"
      using Suc.prems by (auto simp: e intro: draws_ok_nth[of aux r "Suc (Suc (i div 2))"])
    show ?thesis unfolding step e m
      by (simp add: frames_per_image_2 resample_at[OF d] del: rng_after.simps)
  qed
qed


lemma ref_pull:
  assumes "draws_ok aux r (Suc (i div 2))"
  shows "pull (ref_gen aux r NotStarted) i = Inr (projr (nth_draw aux r (i div 2)), [0])"
proof (cases i)
  case 0
  from assms have d: "nth_draw aux r 0 = Inr (projr (nth_draw aux r 0))"
    by (auto simp: 0 intro: draws_ok_nth[of aux r "Suc 0"])
  have "resample aux r =
      (Inr (projr (nth_draw aux r 0), [0]),
       Suspended aux (projr (nth_draw aux r 0)) 0 (rng_after aux r (Suc 0)))"
    using resample_at[OF d] by simp
  then show ?thesis
    by (simp add: 0 pull_def gen_next_ref_gen del: rng_after.simps)
next
  case (Suc j)
  have le: "Suc (j div 2) \<le> Suc (Suc j div 2)" by (simp add: div_le_mono)
  have adv: "advance (ref_gen aux r NotStarted) (Suc j) =
     ref_gen aux r (Suspended aux (projr (nth_draw aux r (j div 2))) (j mod 2)
       (rng_after aux r (Suc (j div 2))))"
    using assms unfolding Suc by (intro ref_advance draws_ok_mono[OF _ le])
  have p: "pull (ref_gen aux r NotStarted) (Suc j) =
      fst (reference_step (Inr (aux, r)) (Suspended aux (projr (nth_draw aux r (j div 2)))
        (j mod 2) (rng_after aux r (Suc (j div 2)))))"
    unfolding pull_def adv gen_next_ref_gen by simp
  have "pull (ref_gen aux r NotStarted) (Suc j) =
      Inr (projr (nth_draw aux r (Suc j div 2)), [0])"
  proof (cases "j mod 2 = 0")
    case True
    then have e: "Suc j div 2 = j div 2" by presburger
    show ?thesis unfolding p e True
      by (simp add: frames_per_image_2 del: rng_after.simps)
  next
    case False
    then have m: "j mod 2 = Suc 0" by presburger
    then have e: "Suc j div 2 = Suc (j div 2)" by presburger
    have d: "nth_draw aux r (Suc (j div 2)) = Inr (projr (nth_draw aux r (Suc (j div 2))))"
      using assms by (auto simp: Suc e intro: draws_ok_nth[of aux r "Suc (Suc (j div 2))"])
    show ?thesis unfolding p e m
      by (simp add: frames_per_image_2 resample_at[OF d] del: rng_after.simps)
  qed
  then show ?thesis unfolding Suc .
qed

lemma reference_frames_ref_gen:
  "reference_aux lib cls seed gs sx g bl d = Inr (aux, r) \<Longrightarrow>
   reference_frames lib cls seed gs sx g bl d = ref_gen aux r NotStarted"
  by (simp add: reference_frames_def ref_gen_def)

lemma fst_advance: "fst (advance g k) = fst g"
  by (induction k) (simp_all add: gen_next_def split: prod.splits)

lemma reference_step_metadata:
  "reference_step body s = (Inr f, s') \<Longrightarrow> snd f = [0]"
  by (cases s) (auto simp: resample_def split: sum.splits prod.splits if_splits)

lemma toy_draw_eq:
  "toy_draw args r = (Inr \<lparr>shape = (1, 1), data = [Num (scale args * of_nat r)]\<rparr>, Suc r)"
  by (simp add: toy_draw_def pattern_call_def toy_pattern_def as_array_def)

lemma rng_after_toy: "rng_after (toy_draw args) r k = r + k"
  by (induction k) (simp_all add: toy_draw_eq)

lemma nth_draw_toy:
  "nth_draw (toy_draw args) r k =
     Inr \<lparr>shape = (1, 1), data = [Num (scale args * of_nat (r + k))]\<rparr>"
  by (simp add: nth_draw_def rng_after_toy) (simp add: toy_draw_eq)

lemma draws_ok_toy: "draws_ok (toy_draw args) r n"
  by (induction n) (simp_all add: nth_draw_toy)

lemma reference_aux_toy:
  "val sx \<noteq> 0 \<Longrightarrow>
   reference_aux toy_imagen cls seed gs sx g bl d =
     Inr (toy_draw \<lparr>grid_density = val gs / val sx, offset = 0, scale = 2 * val bl,
                     bounds_radius = val (half sx), xdensity = val d, ydensity = val d\<rparr>,
          nat seed)"
  by (cases gs; cases sx; cases bl; cases cls)
     (simp_all add: reference_aux_def toy_imagen_def toy_draw_def)

text \<open>
  C8. Every frame that a reference noise generator yields, for either noise class, any
  parameters and any library, at any position \<open>i\<close> of the stream, carries the metadata
  list \<open>[0]\<close>.
\<close>

theorem reference_metadata:
  "pull (reference_frames lib cls seed gs sx g bl d) i = Inr f \<Longrightarrow> snd f = [0]"
proof -
  assume a: "pull (reference_frames lib cls seed gs sx g bl d) i = Inr f"
  let ?G = "reference_frames lib cls seed gs sx g bl d"
  obtain s where s: "advance ?G i = (fst ?G, s)"
    using fst_advance[of ?G i] by (cases "advance ?G i") simp
  have "fst ?G = reference_step (reference_aux lib cls seed gs sx g bl d)"
    by (simp add: reference_frames_def)
  with a s have "fst (reference_step (reference_aux lib cls seed gs sx g bl d) s) = Inr f"
    by (simp add: pull_def gen_next_def split: prod.splits)
  then show ?thesis
    using reference_step_metadata[of "reference_aux lib cls seed gs sx g bl d" s f]
    by (cases "reference_step (reference_aux lib cls seed gs sx g bl d) s") simp
qed

text \<open>
  The theorem at the fourth frame of a dense reference stream over the example library.
\<close>

theorem reference_metadata_witness:
  "pull (reference_frames toy_imagen Dense 0 (PyInt 10) (PyInt 10) True (PyInt 50) (PyFloat 5)) 3 =
     Inr (\<lparr>shape = (1, 1), data = [Num 100]\<rparr>, [0]) \<and>
   snd (\<lparr>shape = (1, 1), data = [Num 100]\<rparr>, [0::int]) = [0]"
proof -
  let ?args = "\<lparr>grid_density = 1, offset = 0, scale = 100,
                 bounds_radius = 5, xdensity = 5, ydensity = 5\<rparr>"
  have b: "reference_aux toy_imagen Dense 0 (PyInt 10) (PyInt 10) True (PyInt 50) (PyFloat 5) =
      Inr (toy_draw ?args, 0)"
    by (simp add: reference_aux_toy)
  have p: "pull (reference_frames toy_imagen Dense 0 (PyInt 10) (PyInt 10) True (PyInt 50)
      (PyFloat 5)) 3 = Inr (\<lparr>shape = (1, 1), data = [Num 100]\<rparr>, [0])"
    unfolding reference_frames_ref_gen[OF b]
    by (simp add: ref_pull draws_ok_toy nth_draw_toy)
  from reference_metadata[OF p] p show ?thesis by simp
qed


lemma ref_gen_state: "snd (ref_gen aux r s) = s"
  by (simp add: ref_gen_def)

text \<open>
  C5. A reference generator holds each sampled array for two frames (\<^verbatim>\<open>time_per_image = 2\<close>,
  \<^verbatim>\<open>frame_duration = 1\<close>). As long as the pattern object returns arrays: the frames at
  indices \<open>2k\<close> and \<open>2k + 1\<close> are the same draw number \<open>k\<close>; between the two pulls the state
  of the random generator does not change; frame \<open>2k + 2\<close> is draw number \<open>k + 1\<close>, so it
  differs from frame \<open>2k + 1\<close> exactly when the two consecutive draws differ.
\<close>

theorem hold_semantics:
  assumes body: "reference_aux lib cls seed gs sx g bl d = Inr (aux, r)"
      and ok: "draws_ok aux r (Suc (Suc k))"
  shows "\<exists>a b. nth_draw aux r k = Inr a \<and> nth_draw aux r (Suc k) = Inr b \<and>
           pull (reference_frames lib cls seed gs sx g bl d) (2 * k) = Inr (a, [0]) \<and>
           pull (reference_frames lib cls seed gs sx g bl d) (2 * k + 1) = Inr (a, [0]) \<and>
           pull (reference_frames lib cls seed gs sx g bl d) (2 * k + 2) = Inr (b, [0]) \<and>
           snd (advance (reference_frames lib cls seed gs sx g bl d) (2 * k + 1)) =
             Suspended aux a 0 (rng_after aux r (Suc k)) \<and>
           snd (advance (reference_frames lib cls seed gs sx g bl d) (2 * k + 2)) =
             Suspended aux a 1 (rng_after aux r (Suc k)) \<and>
           ((pull (reference_frames lib cls seed gs sx g bl d) (2 * k + 1) \<noteq>
             pull (reference_frames lib cls seed gs sx g bl d) (2 * k + 2)) = (a \<noteq> b))"
proof -
  let ?G = "ref_gen aux r NotStarted"
  let ?a = "projr (nth_draw aux r k)"
  let ?b = "projr (nth_draw aux r (Suc k))"
  have G: "reference_frames lib cls seed gs sx g bl d = ?G"
    using body by (rule reference_frames_ref_gen)
  have ok1: "draws_ok aux r (Suc k)" using ok by simp
  have da: "nth_draw aux r k = Inr ?a" using ok by (rule draws_ok_nth) simp
  have db: "nth_draw aux r (Suc k) = Inr ?b" using ok by (rule draws_ok_nth) simp
  have e0: "(2 * k) div 2 = k" "(2 * k) mod 2 = 0" by simp_all
  have e1: "(2 * k + 1) div 2 = k" "(2 * k + 1) mod 2 = 1" by presburger+
  have e2: "(2 * k + 2) div 2 = Suc k" by simp
  have p0: "pull ?G (2 * k) = Inr (?a, [0])"
    using ref_pull[of aux r "2 * k"] ok1 by (simp only: e0)
  have p1: "pull ?G (2 * k + 1) = Inr (?a, [0])"
    using ref_pull[of aux r "2 * k + 1"] ok1 by (simp only: e1)
  have p2: "pull ?G (2 * k + 2) = Inr (?b, [0])"
    using ref_pull[of aux r "2 * k + 2"] ok by (simp only: e2)
  have s1: "snd (advance ?G (2 * k + 1)) = Suspended aux ?a 0 (rng_after aux r (Suc k))"
    using ref_advance[of aux r "2 * k"] ok1 by (simp only: e0 ref_gen_state Suc_eq_plus1)
  have s2: "snd (advance ?G (2 * k + 2)) = Suspended aux ?a 1 (rng_after aux r (Suc k))"
  proof -
    have "advance ?G (Suc (2 * k + 1)) =
        ref_gen aux r (Suspended aux ?a 1 (rng_after aux r (Suc k)))"
      using ref_advance[of aux r "2 * k + 1"] ok1 by (simp only: e1)
    moreover have "Suc (2 * k + 1) = 2 * k + 2" by simp
    ultimately show ?thesis by (simp only: ref_gen_state)
  qed
  have ne: "(pull ?G (2 * k + 1) \<noteq> pull ?G (2 * k + 2)) = (?a \<noteq> ?b)"
    by (simp only: p1 p2) simp
  show ?thesis unfolding G using da db p0 p1 p2 s1 s2 ne by blast
qed

text \<open>
  The theorem at \<open>k = 1\<close> for a sparse reference stream over the example library: frames 2
  and 3 are draw 1, frame 4 is draw 2.
\<close>

theorem hold_semantics_witness:
  "pull (reference_frames toy_imagen Sparse 0 (PyInt 10) (PyInt 10) True (PyInt 50) (PyFloat 5)) 2 =
     Inr (\<lparr>shape = (1, 1), data = [Num 100]\<rparr>, [0]) \<and>
   pull (reference_frames toy_imagen Sparse 0 (PyInt 10) (PyInt 10) True (PyInt 50) (PyFloat 5)) 3 =
     Inr (\<lparr>shape = (1, 1), data = [Num 100]\<rparr>, [0]) \<and>
   pull (reference_frames toy_imagen Sparse 0 (PyInt 10) (PyInt 10) True (PyInt 50) (PyFloat 5)) 4 =
     Inr (\<lparr>shape = (1, 1), data = [Num 200]\<rparr>, [0])"
proof -
  let ?args = "\<lparr>grid_density = 1, offset = 0, scale = 100,
                 bounds_radius = 5, xdensity = 5, ydensity = 5\<rparr>"
  have b: "reference_aux toy_imagen Sparse 0 (PyInt 10) (PyInt 10) True (PyInt 50) (PyFloat 5) =
      Inr (toy_draw ?args, 0)"
    by (simp add: reference_aux_toy)
  have ok: "draws_ok (toy_draw ?args) 0 (Suc (Suc 1))" by (rule draws_ok_toy)
  have n1: "nth_draw (toy_draw ?args) 0 1 = Inr \<lparr>shape = (1, 1), data = [Num 100]\<rparr>"
    by (simp add: nth_draw_toy)
  have n2: "nth_draw (toy_draw ?args) 0 (Suc 1) = Inr \<lparr>shape = (1, 1), data = [Num 200]\<rparr>"
    by (simp add: nth_draw_toy)
  from hold_semantics[OF b ok] show ?thesis
    unfolding n1 n2 by (elim exE conjE) simp
qed

section \<open>The implementation's stream\<close>

lemma not_integral_timing: "\<not> integral (14 / 10 / (15 / 10))"
  by code_simp

lemma not_integral_09: "\<not> integral (9 / 10)"
  by code_simp

lemma not_integral_099: "\<not> integral (9999999999 / 10000000000)"
  by code_simp

lemma integral_of_int: "integral (of_int k)"
  by (simp add: integral_def)


lemma gen_next_hold_gen:
  "gen_next (hold_gen aux K s) =
     (fst (next_frame aux K s), hold_gen aux K (snd (next_frame aux K s)))"
  by (simp add: gen_next_def hold_gen_def split: prod.splits)

lemma sample_new_at:
  assumes "nth_draw aux r k = Inr a" and "random_source s = rng_after aux r k"
  shows "sample_new aux K s =
           (Inr (a, [0]),
            \<lparr>held = Some a, countdown = K - 1, random_source = rng_after aux r (Suc k)\<rparr>)"
proof -
  have "aux (random_source s) = (Inr a, rng_after aux r (Suc k))"
    using aux_at[of aux r k] assms by simp
  then show ?thesis by (simp add: sample_new_def)
qed

lemma hold_advance:
  assumes K: "0 < K"
  shows "draws_ok aux r (Suc (i div K)) \<Longrightarrow>
   advance (hold_gen aux K \<lparr>held = None, countdown = 0, random_source = r\<rparr>) (Suc i) =
     hold_gen aux K \<lparr>held = Some (projr (nth_draw aux r (i div K))),
                     countdown = K - 1 - i mod K,
                     random_source = rng_after aux r (Suc (i div K))\<rparr>"
proof (induction i)
  case 0
  then have d: "nth_draw aux r 0 = Inr (projr (nth_draw aux r 0))"
    by (auto intro: draws_ok_nth[of aux r "Suc 0"])
  have "sample_new aux K \<lparr>held = None, countdown = 0, random_source = r\<rparr> =
      (Inr (projr (nth_draw aux r 0), [0]),
       \<lparr>held = Some (projr (nth_draw aux r 0)), countdown = K - 1,
        random_source = rng_after aux r (Suc 0)\<rparr>)"
    by (rule sample_new_at[OF d]) simp
  then show ?case
    by (simp add: gen_next_hold_gen next_frame_def del: rng_after.simps)
next
  case (Suc i)
  let ?G = "hold_gen aux K \<lparr>held = None, countdown = 0, random_source = r\<rparr>"
  let ?a = "projr (nth_draw aux r (i div K))"
  let ?s = "\<lparr>held = Some ?a, countdown = K - 1 - i mod K,
            random_source = rng_after aux r (Suc (i div K))\<rparr>"
  have le: "Suc (i div K) \<le> Suc (Suc i div K)" by (simp add: div_le_mono)
  have ih: "advance ?G (Suc i) = hold_gen aux K ?s"
    by (rule Suc.IH) (rule draws_ok_mono[OF Suc.prems le])
  have step: "advance ?G (Suc (Suc i)) = hold_gen aux K (snd (next_frame aux K ?s))"
    by (simp only: advance.simps(2)[of ?G "Suc i"] ih gen_next_hold_gen snd_conv)
  have lt: "i mod K < K" using K by simp
  show ?case
  proof (cases "Suc (i mod K) = K")
    case False
    with lt have c: "K - 1 - i mod K \<noteq> 0" by simp
    from False have e: "Suc i div K = i div K" "Suc i mod K = Suc (i mod K)"
      by (simp_all add: div_Suc mod_Suc)
    have "K - 1 - i mod K - 1 = K - 1 - Suc (i mod K)" by simp
    then show ?thesis unfolding step e
      using c by (simp add: next_frame_def del: rng_after.simps)
  next
    case True
    then have c: "K - 1 - i mod K = 0" by simp
    from True have e: "Suc i div K = Suc (i div K)" "Suc i mod K = 0"
      by (simp_all add: div_Suc mod_Suc)
    have d: "nth_draw aux r (Suc (i div K)) = Inr (projr (nth_draw aux r (Suc (i div K))))"
      using Suc.prems by (auto simp: e intro: draws_ok_nth[of aux r "Suc (Suc (i div K))"])
    have "sample_new aux K ?s =
      (Inr (projr (nth_draw aux r (Suc (i div K))), [0]),
       \<lparr>held = Some (projr (nth_draw aux r (Suc (i div K)))), countdown = K - 1,
        random_source = rng_after aux r (Suc (Suc (i div K)))\<rparr>)"
      by (rule sample_new_at[OF d]) simp
    then show ?thesis unfolding step e
      using c by (simp add: next_frame_def del: rng_after.simps)
  qed
qed

lemma hold_pull:
  assumes K: "0 < K" and ok: "draws_ok aux r (Suc (i div K))"
  shows "pull (hold_gen aux K \<lparr>held = None, countdown = 0, random_source = r\<rparr>) i =
           Inr (projr (nth_draw aux r (i div K)), [0])"
proof (cases i)
  case 0
  from ok have d: "nth_draw aux r 0 = Inr (projr (nth_draw aux r 0))"
    by (auto simp: 0 intro: draws_ok_nth[of aux r "Suc 0"])
  have "sample_new aux K \<lparr>held = None, countdown = 0, random_source = r\<rparr> =
      (Inr (projr (nth_draw aux r 0), [0]),
       \<lparr>held = Some (projr (nth_draw aux r 0)), countdown = K - 1,
        random_source = rng_after aux r (Suc 0)\<rparr>)"
    by (rule sample_new_at[OF d]) simp
  then show ?thesis
    by (simp add: 0 pull_def gen_next_hold_gen next_frame_def del: rng_after.simps)
next
  case (Suc j)
  let ?s = "\<lparr>held = Some (projr (nth_draw aux r (j div K))), countdown = K - 1 - j mod K,
            random_source = rng_after aux r (Suc (j div K))\<rparr>"
  have le: "Suc (j div K) \<le> Suc (Suc j div K)" by (simp add: div_le_mono)
  have adv: "advance (hold_gen aux K \<lparr>held = None, countdown = 0, random_source = r\<rparr>) (Suc j) =
      hold_gen aux K ?s"
    using ok unfolding Suc by (intro hold_advance[OF K] draws_ok_mono[OF _ le])
  have p: "pull (hold_gen aux K \<lparr>held = None, countdown = 0, random_source = r\<rparr>) (Suc j) =
      fst (next_frame aux K ?s)"
    unfolding pull_def adv gen_next_hold_gen by simp
  have lt: "j mod K < K" using K by simp
  have "pull (hold_gen aux K \<lparr>held = None, countdown = 0, random_source = r\<rparr>) (Suc j) =
      Inr (projr (nth_draw aux r (Suc j div K)), [0])"
  proof (cases "Suc (j mod K) = K")
    case False
    with lt have c: "K - 1 - j mod K \<noteq> 0" by simp
    from False have e: "Suc j div K = j div K" by (simp add: div_Suc mod_Suc)
    show ?thesis unfolding p e using c by (simp add: next_frame_def)
  next
    case True
    then have c: "K - 1 - j mod K = 0" by simp
    from True have e: "Suc j div K = Suc (j div K)" by (simp add: div_Suc mod_Suc)
    have d: "nth_draw aux r (Suc (j div K)) = Inr (projr (nth_draw aux r (Suc (j div K))))"
      using ok by (auto simp: Suc e intro: draws_ok_nth[of aux r "Suc (Suc (j div K))"])
    have "sample_new aux K ?s =
      (Inr (projr (nth_draw aux r (Suc (j div K))), [0]),
       \<lparr>held = Some (projr (nth_draw aux r (Suc (j div K)))), countdown = K - 1,
        random_source = rng_after aux r (Suc (Suc (j div K)))\<rparr>)"
      by (rule sample_new_at[OF d]) simp
    then show ?thesis unfolding p e using c by (simp add: next_frame_def)
  qed
  then show ?thesis unfolding Suc .
qed


lemma array_equal_as_array: "array_equal (as_array f) (as_array f)"
  by (simp add: array_equal_def as_array_def list_all2_same elem_eq_def)

lemma pattern_call_finite:
  assumes "nth_draw (pattern_call p) r k = Inr a"
  shows "array_equal a a"
proof -
  from assms obtain f where "a = as_array f"
    by (auto simp: nth_draw_def pattern_call_def split: prod.splits sum.splits)
  then show ?thesis by (simp add: array_equal_as_array)
qed

lemma ref_hold_pull_eq:
  assumes "draws_ok aux r m" and "i < 2 * m"
  shows "pull (ref_gen aux r NotStarted) i = Inr (projr (nth_draw aux r (i div 2)), [0])"
    and "pull (hold_gen aux 2 \<lparr>held = None, countdown = 0, random_source = r\<rparr>) i =
           Inr (projr (nth_draw aux r (i div 2)), [0])"
proof -
  from assms(2) have "Suc (i div 2) \<le> m" by presburger
  with assms(1) have ok: "draws_ok aux r (Suc (i div 2))" by (rule draws_ok_mono)
  show "pull (ref_gen aux r NotStarted) i = Inr (projr (nth_draw aux r (i div 2)), [0])"
    using ok by (rule ref_pull)
  show "pull (hold_gen aux 2 \<lparr>held = None, countdown = 0, random_source = r\<rparr>) i =
           Inr (projr (nth_draw aux r (i div 2)), [0])"
    using ok by (intro hold_pull) simp_all
qed

lemma ref_hold_agree:
  assumes "draws_ok (pattern_call p) r m" and "i < 2 * m"
  shows "agree (ref_gen (pattern_call p) r NotStarted)
               (hold_gen (pattern_call p) 2
                  \<lparr>held = None, countdown = 0, random_source = r\<rparr>) i"
proof -
  from assms(2) have "i div 2 < m" by presburger
  with assms(1) have "nth_draw (pattern_call p) r (i div 2) =
      Inr (projr (nth_draw (pattern_call p) r (i div 2)))"
    by (rule draws_ok_nth)
  then have "array_equal (projr (nth_draw (pattern_call p) r (i div 2)))
      (projr (nth_draw (pattern_call p) r (i div 2)))"
    by (rule pattern_call_finite)
  then show ?thesis
    unfolding agree_def ref_hold_pull_eq[OF assms] by (simp add: frame_match_def)
qed

lemma topo_frames_valid:
  assumes "0 < k" and "0 < val sx" and "0 < val d"
  shows "topo_frames lib Sparse (PyInt k) sx g bl d =
     Inr (hold_gen
            (pattern_call
               (imagen_SparseNoise lib g
                  \<lparr>grid_density = of_int k / val sx, offset = 0, scale = 2 * val bl,
                   bounds_radius = val (half sx), xdensity = val d, ydensity = val d\<rparr>))
            2 \<lparr>held = None, countdown = 0, random_source = RandomState lib 0\<rparr>)"
proof -
  have t: "integral (val default_noise_time_per_image / val default_topo_frame_duration)"
      "val default_topo_frame_duration \<noteq> 0"
      "nat \<lfloor>val default_noise_time_per_image / val default_topo_frame_duration\<rfloor> = 2"
    by (simp_all add: default_noise_time_per_image_def default_topo_frame_duration_def
        integral_def)
  have gi: "integral (val (PyInt k))" "\<not> val (PyInt k) \<le> 0"
    using assms(1) by (simp_all add: integral_def)
  have sy: "\<not> val default_topo_size_y \<le> 0" by (simp add: default_topo_size_y_def)
  show ?thesis
    unfolding topo_frames_def topo_Noise_def
    using t gi sy assms(2,3)
    by (simp add: noise_frames_def hold_gen_def Random_Field_Sampler_def sampler_args_def
        frames_per_held_image_def TopographicaBasedVisualStimulus_init_def
        TopographicaBasedVisualStimulus.defs NoiseStimulus.defs TestNoise_experiment_seed_def)
qed

lemma reference_aux_valid:
  assumes "val sx \<noteq> 0"
  shows "reference_aux lib Sparse seed (PyInt k) sx g bl d =
     Inr (pattern_call
            (imagen_SparseNoise lib g
               \<lparr>grid_density = of_int k / val sx, offset = 0, scale = 2 * val bl,
                bounds_radius = val (half sx), xdensity = val d, ydensity = val d\<rparr>),
          RandomState lib seed)"
  using assms by (cases sx; cases bl) (simp_all add: reference_aux_def)


section \<open>The implementation against the reference\<close>

text \<open>
  C1. For each of the two parameter tuples, with seed 0 and the default timing, and for
  every library whose sparse pattern returns arrays at its first 50 draws: the
  implementation is constructed, the first 100 frames that it and the reference generator
  yield are equal one by one (arrays and metadata), the comparison over
  \<open>num_frames = 100\<close> frames returns true, and \<^verbatim>\<open>check_frames\<close> ends without an exception.
\<close>

theorem golden_equivalence:
  assumes tuple: "(gs, sx, g, bl, d) = (PyInt 10, PyInt 10, True, PyInt 50, PyFloat 5) \<or>
                  (gs, sx, g, bl, d) = (PyInt 15, PyInt 15, False, PyInt 60, PyFloat 6)"
      and body: "reference_aux lib Sparse TestNoise_experiment_seed gs sx g bl d = Inr (aux, r)"
      and ok: "draws_ok aux r 50"
  shows "\<exists>tf. topo_frames lib Sparse gs sx g bl d = Inr tf \<and>
           (\<forall>i<100. pull (reference_frames lib Sparse TestNoise_experiment_seed gs sx g bl d) i =
                       pull tf i \<and>
                     agree (reference_frames lib Sparse TestNoise_experiment_seed gs sx g bl d)
                       tf i) \<and>
           fst (frames_equal (reference_frames lib Sparse TestNoise_experiment_seed gs sx g bl d)
                  tf num_frames) = Inr True \<and>
           check_frames lib Sparse gs sx g bl d = Inr ()"
proof -
  let ?rf = "reference_frames lib Sparse TestNoise_experiment_seed gs sx g bl d"
  let ?tf = "hold_gen aux 2 \<lparr>held = None, countdown = 0, random_source = r\<rparr>"
  from tuple obtain k where gs: "gs = PyInt k" and k: "0 < k" and sx: "0 < val sx"
      and d: "0 < val d"
    by auto
  from sx have sx0: "val sx \<noteq> 0" by simp
  let ?p = "imagen_SparseNoise lib g
            \<lparr>grid_density = of_int k / val sx, offset = 0, scale = 2 * val bl,
             bounds_radius = val (half sx), xdensity = val d, ydensity = val d\<rparr>"
  have "reference_aux lib Sparse TestNoise_experiment_seed gs sx g bl d =
     Inr (pattern_call ?p, RandomState lib TestNoise_experiment_seed)"
    unfolding gs using sx0 by (rule reference_aux_valid)
  with body have aux: "aux = pattern_call ?p"
      and r: "r = RandomState lib 0"
    by (simp_all add: TestNoise_experiment_seed_def)
  have tf: "topo_frames lib Sparse gs sx g bl d = Inr ?tf"
    unfolding gs aux r using k sx d by (rule topo_frames_valid)
  have rf: "?rf = ref_gen aux r NotStarted"
    using body by (rule reference_frames_ref_gen)
  have ok': "draws_ok aux r 50" using ok .
  have okp: "draws_ok (pattern_call ?p) r 50" using ok unfolding aux .
  have ag: "agree ?rf ?tf i" if "i < 100" for i
    unfolding rf unfolding aux using okp by (rule ref_hold_agree) (use that in simp)
  have pe: "pull ?rf i = pull ?tf i" if "i < 100" for i
  proof -
    from that have i: "i < 2 * 50" by simp
    show ?thesis unfolding rf
      by (simp only: ref_hold_pull_eq(1)[OF ok' i] ref_hold_pull_eq(2)[OF ok' i])
  qed
  have "frames_equal_loop ?rf ?tf 100 = (Inr True, advance ?rf 100, advance ?tf 100)"
    using ag by (rule loop_all_agree)
  then have fe: "fst (frames_equal ?rf ?tf num_frames) = Inr True"
    by (simp add: frames_equal_def num_frames_def)
  have cf: "check_frames lib Sparse gs sx g bl d = Inr ()"
    unfolding check_frames_def Let_def tf using fe by simp
  from tf ag pe fe cf show ?thesis by blast
qed

text \<open>The theorem at both tuples over the example library.\<close>

theorem golden_equivalence_witness:
  "check_frames toy_imagen Sparse (PyInt 10) (PyInt 10) True (PyInt 50) (PyFloat 5) = Inr () \<and>
   check_frames toy_imagen Sparse (PyInt 15) (PyInt 15) False (PyInt 60) (PyFloat 6) = Inr ()"
proof -
  have b1: "reference_aux toy_imagen Sparse TestNoise_experiment_seed
              (PyInt 10) (PyInt 10) True (PyInt 50) (PyFloat 5) =
            Inr (toy_draw \<lparr>grid_density = 1, offset = 0, scale = 100,
                            bounds_radius = 5, xdensity = 5, ydensity = 5\<rparr>, 0)"
    by (simp add: reference_aux_toy TestNoise_experiment_seed_def)
  have b2: "reference_aux toy_imagen Sparse TestNoise_experiment_seed
              (PyInt 15) (PyInt 15) False (PyInt 60) (PyFloat 6) =
            Inr (toy_draw \<lparr>grid_density = 1, offset = 0, scale = 120,
                            bounds_radius = 7, xdensity = 6, ydensity = 6\<rparr>, 0)"
    by (simp add: reference_aux_toy TestNoise_experiment_seed_def)
  have "check_frames toy_imagen Sparse (PyInt 10) (PyInt 10) True (PyInt 50) (PyFloat 5) = Inr ()"
    using golden_equivalence[OF _ b1 draws_ok_toy] by blast
  moreover
  have "check_frames toy_imagen Sparse (PyInt 15) (PyInt 15) False (PyInt 60) (PyFloat 6) = Inr ()"
    using golden_equivalence[OF _ b2 draws_ok_toy] by blast
  ultimately show ?thesis by (rule conjI)
qed


section \<open>Validation at construction\<close>

text \<open>
  C3. Constructing a noise stimulus of either class with \<^verbatim>\<open>time_per_image=1.4\<close> and
  \<^verbatim>\<open>frame_duration=1.5\<close> fails with AssertionError, whatever the other arguments are:
  1.4 / 1.5 is not a whole number.
\<close>

theorem timing_validation:
  "topo_Noise Sparse gs g bl d sx sy lx ly (PyFloat (14 / 10)) (PyFloat (15 / 10)) seed =
     Inl AssertionError \<and>
   topo_Noise Dense gs g bl d sx sy lx ly (PyFloat (14 / 10)) (PyFloat (15 / 10)) seed =
     Inl AssertionError"
  unfolding topo_Noise_def val.simps using not_integral_timing
  by (simp only: simp_thms if_True)

text \<open>The theorem at the default values of the test classes for the other arguments.\<close>

theorem timing_validation_witness:
  "topo_Noise Sparse (PyInt 11) False (PyFloat 50) (PyFloat 10) (PyFloat 11) (PyFloat 11)
     (PyFloat 0) (PyFloat 0) (PyFloat (14 / 10)) (PyFloat (15 / 10)) 0 = Inl AssertionError \<and>
   topo_Noise Dense (PyInt 11) False (PyFloat 50) (PyFloat 10) (PyFloat 11) (PyFloat 11)
     (PyFloat 0) (PyFloat 0) (PyFloat (14 / 10)) (PyFloat (15 / 10)) 0 = Inl AssertionError"
  by (rule timing_validation)

lemma default_timing_ok:
  "val default_topo_frame_duration \<noteq> 0"
  "integral (val default_noise_time_per_image / val default_topo_frame_duration)"
  by (simp_all add: default_noise_time_per_image_def default_topo_frame_duration_def
      integral_def)

text \<open>
  C4. For each grid size among -1, 0, 0.9 and 0.9999999999 and either noise class, with
  the timing that \<^verbatim>\<open>topo_frames\<close> passes: the constructor fails with ValueError, so
  \<^verbatim>\<open>topo_frames\<close> ends with that error and returns no generator to pull from,
  \<^verbatim>\<open>check_frames\<close> ends with it, and \<^verbatim>\<open>test_min_grid_size\<close> passes.
\<close>

theorem grid_size_validation:
  assumes "gs \<in> {PyInt (- 1), PyInt 0, PyFloat (9 / 10), PyFloat (9999999999 / 10000000000)}"
  shows "topo_Noise cls gs g bl d sx sy lx ly
           default_noise_time_per_image default_topo_frame_duration seed = Inl ValueError \<and>
         topo_frames lib cls gs sx g bl d = Inl ValueError \<and>
         check_frames lib cls gs sx g bl d = Inl ValueError \<and>
         test_min_grid_size lib cls gs"
proof -
  have bad: "val gs \<le> 0 \<or> \<not> integral (val gs)"
    using assms not_integral_09 not_integral_099 by auto
  have c: "topo_Noise cls' gs g' bl' d' sx' sy' lx' ly'
           default_noise_time_per_image default_topo_frame_duration seed' = Inl ValueError"
    for cls' g' bl' d' sx' sy' lx' ly' seed'
    unfolding topo_Noise_def using bad default_timing_ok by simp
  have t: "topo_frames lib cls' gs sx' g' bl' d' = Inl ValueError" for cls' sx' g' bl' d'
    unfolding topo_frames_def by (simp add: c)
  have k: "check_frames lib cls' gs sx' g' bl' d' = Inl ValueError" for cls' sx' g' bl' d'
    unfolding check_frames_def Let_def by (simp add: t)
  have m: "test_min_grid_size lib cls gs"
    unfolding test_min_grid_size_def by (simp add: k)
  from c t k m show ?thesis by simp
qed

text \<open>The theorem at each of the four grid sizes.\<close>

theorem grid_size_validation_witness:
  "topo_Noise Sparse (PyFloat (9 / 10)) False (PyFloat 50) (PyFloat 10) (PyFloat 11)
     (PyFloat 11) (PyFloat 0) (PyFloat 0) default_noise_time_per_image
     default_topo_frame_duration 0 = Inl ValueError \<and>
   check_frames toy_imagen Dense (PyInt 0) (PyFloat 11) False (PyFloat 50) (PyFloat 10) =
     Inl ValueError \<and>
   test_min_grid_size toy_imagen Sparse (PyInt (- 1)) \<and>
   test_min_grid_size toy_imagen Dense (PyFloat (9999999999 / 10000000000))"
proof -
  have a: "PyFloat (9 / 10) \<in>
      {PyInt (- 1), PyInt 0, PyFloat (9 / 10), PyFloat (9999999999 / 10000000000)}"
    by simp
  have b: "PyInt 0 \<in>
      {PyInt (- 1), PyInt 0, PyFloat (9 / 10), PyFloat (9999999999 / 10000000000)}"
    by simp
  have c: "PyInt (- 1) \<in>
      {PyInt (- 1), PyInt 0, PyFloat (9 / 10), PyFloat (9999999999 / 10000000000)}"
    by simp
  have d: "PyFloat (9999999999 / 10000000000) \<in>
      {PyInt (- 1), PyInt 0, PyFloat (9 / 10), PyFloat (9999999999 / 10000000000)}"
    by simp
  show ?thesis
    by (simp only: grid_size_validation[OF a] grid_size_validation[OF b]
        grid_size_validation[OF c] grid_size_validation[OF d] simp_thms)
qed

section \<open>Transparency\<close>

text \<open>
  C7. A stimulus built by the base constructor reports \<open>transparent = False\<close>; so does the
  minimal subclass instance of the test, whose assertion passes; so does every noise
  stimulus that its constructor returns.
\<close>

theorem nontransparent:
  "transparent (TopographicaBasedVisualStimulus_init sx sy lx ly) = False \<and>
   transparent (DummyTBVS (PyInt 1) (PyInt 1) (PyFloat 0) (PyFloat 0)) = False \<and>
   test_nontransparent = Inr () \<and>
   (topo_Noise cls gs g bl d sx' sy' lx' ly' tpi fd seed = Inr st \<longrightarrow> transparent st = False)"
proof -
  have "transparent st = False"
    if "topo_Noise cls gs g bl d sx' sy' lx' ly' tpi fd seed = Inr st"
    using that unfolding topo_Noise_def
    by (auto simp: TopographicaBasedVisualStimulus_init_def
        TopographicaBasedVisualStimulus.defs NoiseStimulus.defs split: if_splits)
  then show ?thesis
    by (simp add: TopographicaBasedVisualStimulus_init_def DummyTBVS_def
        test_nontransparent_def)
qed

text \<open>The theorem at a dense noise stimulus with valid arguments.\<close>

theorem nontransparent_witness:
  "\<exists>st. topo_Noise Dense (PyInt 10) False (PyInt 50) (PyFloat 5) (PyInt 10) (PyFloat 11)
          (PyFloat 0) (PyFloat 0) (PyInt 2) (PyInt 1) 0 = Inr st \<and> transparent st = False"
proof -
  have "\<exists>st. topo_Noise Dense (PyInt 10) False (PyInt 50) (PyFloat 5) (PyInt 10) (PyFloat 11)
          (PyFloat 0) (PyFloat 0) (PyInt 2) (PyInt 1) 0 = Inr st"
    unfolding topo_Noise_def val.simps
    using integral_of_int[of 2] integral_of_int[of 10] by (simp add: integral_def)
  then show ?thesis using nontransparent by blast
qed


section \<open>Identity of the arrays in a stream\<close>

lemma resample_store_ok:
  "aux x = (Inr a, r') \<Longrightarrow>
   resample_store aux x h =
     (Inr (length h, Suc (length h)), h @ [ArrayObj a, ListObj [0]],
      SSuspended aux (length h) 0 r')"
  by (simp add: resample_store_def alloc_def)

lemma resample_store_at:
  assumes "nth_draw aux r k = Inr a"
  shows "resample_store aux (rng_after aux r k) h =
           (Inr (length h, Suc (length h)), h @ [ArrayObj a, ListObj [0]],
            SSuspended aux (length h) 0 (rng_after aux r (Suc k)))"
proof -
  have "aux (rng_after aux r k) = (Inr a, rng_after aux r (Suc k))"
    using aux_at[of aux r k] assms by simp
  then show ?thesis by (rule resample_store_ok)
qed

lemma store_advance_ref:
  "draws_ok aux r (Suc (i div 2)) \<Longrightarrow>
   \<exists>h. store_advance (Inr (aux, r)) (h0, SNotStarted) (Suc i) =
          (h, SSuspended aux (length h0 + 3 * (i div 2)) (i mod 2)
                (rng_after aux r (Suc (i div 2)))) \<and>
        length h = length h0 + 3 * (i div 2) + 2 + i mod 2 \<and>
        h ! (length h0 + 3 * (i div 2)) = ArrayObj (projr (nth_draw aux r (i div 2)))"
proof (induction i)
  case 0
  then have d: "nth_draw aux r 0 = Inr (projr (nth_draw aux r 0))"
    by (auto intro: draws_ok_nth[of aux r "Suc 0"])
  have "resample_store aux r h0 =
      (Inr (length h0, Suc (length h0)),
       h0 @ [ArrayObj (projr (nth_draw aux r 0)), ListObj [0]],
       SSuspended aux (length h0) 0 (rng_after aux r (Suc 0)))"
    using resample_store_at[OF d, of h0] by simp
  then show ?case by (simp del: rng_after.simps)
next
  case (Suc i)
  let ?B = "Inr (aux, r) :: error + 'a sampler \<times> 'a"
  let ?L = "length h0 + 3 * (i div 2)"
  have le: "Suc (i div 2) \<le> Suc (Suc i div 2)" by (simp add: div_le_mono)
  from Suc.IH[OF draws_ok_mono[OF Suc.prems le]] obtain h where
    ih: "store_advance ?B (h0, SNotStarted) (Suc i) =
          (h, SSuspended aux ?L (i mod 2) (rng_after aux r (Suc (i div 2))))"
    and len: "length h = ?L + 2 + i mod 2"
    and arr: "h ! ?L = ArrayObj (projr (nth_draw aux r (i div 2)))"
    by blast
  have step: "store_advance ?B (h0, SNotStarted) (Suc (Suc i)) =
      snd (reference_step_store ?B
             (h, SSuspended aux ?L (i mod 2) (rng_after aux r (Suc (i div 2)))))"
    by (simp only: store_advance.simps(2)[of ?B _ "Suc i"] ih)
  show ?case
  proof (cases "i mod 2 = 0")
    case True
    then have e: "Suc i div 2 = i div 2" "Suc i mod 2 = Suc 0" by presburger+
    have lt: "?L < length h" using len by simp
    show ?thesis unfolding step e True
      using len arr lt
      by (simp add: frames_per_image_2 alloc_def nth_append True del: rng_after.simps)
  next
    case False
    then have m: "i mod 2 = Suc 0" by presburger
    then have e: "Suc i div 2 = Suc (i div 2)" "Suc i mod 2 = 0" by presburger+
    have d: "nth_draw aux r (Suc (i div 2)) = Inr (projr (nth_draw aux r (Suc (i div 2))))"
      using Suc.prems by (auto simp: e intro: draws_ok_nth[of aux r "Suc (Suc (i div 2))"])
    show ?thesis unfolding step e m
      using len
      by (simp add: frames_per_image_2 resample_store_at[OF d] m nth_append
          del: rng_after.simps)
  qed
qed

lemma store_pull_ref:
  assumes "draws_ok aux r (Suc (i div 2))"
  shows "store_pull (Inr (aux, r)) (h0, SNotStarted) i =
           Inr (length h0 + 3 * (i div 2), length h0 + 3 * (i div 2) + 1 + i mod 2)"
proof (cases i)
  case 0
  from assms have d: "nth_draw aux r 0 = Inr (projr (nth_draw aux r 0))"
    by (auto simp: 0 intro: draws_ok_nth[of aux r "Suc 0"])
  have "resample_store aux r h0 =
      (Inr (length h0, Suc (length h0)),
       h0 @ [ArrayObj (projr (nth_draw aux r 0)), ListObj [0]],
       SSuspended aux (length h0) 0 (rng_after aux r (Suc 0)))"
    using resample_store_at[OF d, of h0] by simp
  then show ?thesis by (simp add: 0 store_pull_def del: rng_after.simps)
next
  case (Suc j)
  let ?B = "Inr (aux, r) :: error + 'a sampler \<times> 'a"
  let ?L = "length h0 + 3 * (j div 2)"
  have le: "Suc (j div 2) \<le> Suc (Suc j div 2)" by (simp add: div_le_mono)
  from assms have "draws_ok aux r (Suc (j div 2))"
    unfolding Suc by (rule draws_ok_mono[OF _ le])
  from store_advance_ref[OF this, of h0] obtain h where
    adv: "store_advance ?B (h0, SNotStarted) (Suc j) =
          (h, SSuspended aux ?L (j mod 2) (rng_after aux r (Suc (j div 2))))"
    and len: "length h = ?L + 2 + j mod 2"
    by blast
  have p: "store_pull ?B (h0, SNotStarted) (Suc j) =
      fst (reference_step_store ?B
             (h, SSuspended aux ?L (j mod 2) (rng_after aux r (Suc (j div 2)))))"
    unfolding store_pull_def adv by simp
  have "store_pull ?B (h0, SNotStarted) (Suc j) =
      Inr (length h0 + 3 * (Suc j div 2), length h0 + 3 * (Suc j div 2) + 1 + Suc j mod 2)"
  proof (cases "j mod 2 = 0")
    case True
    then have e: "Suc j div 2 = j div 2" "Suc j mod 2 = Suc 0" by presburger+
    show ?thesis unfolding p e True
      using len by (simp add: frames_per_image_2 alloc_def True del: rng_after.simps)
  next
    case False
    then have m: "j mod 2 = Suc 0" by presburger
    then have e: "Suc j div 2 = Suc (j div 2)" "Suc j mod 2 = 0" by presburger+
    have d: "nth_draw aux r (Suc (j div 2)) = Inr (projr (nth_draw aux r (Suc (j div 2))))"
      using assms by (auto simp: Suc e intro: draws_ok_nth[of aux r "Suc (Suc (j div 2))"])
    show ?thesis unfolding p e m
      using len by (simp add: frames_per_image_2 resample_store_at[OF d] m del: rng_after.simps)
  qed
  then show ?thesis unfolding Suc .
qed


lemma window_offset_inj:
  fixes a b c d :: nat
  assumes "3 * a + b = 3 * c + d" and "b < 2" and "d < 2"
  shows "a = c \<and> b = d"
  using assms by arith

text \<open>
  C9 (amended). As long as the pattern object returns arrays, each pull of a reference
  generator returns a frame with a metadata list of its own, and an array that is the
  object drawn at the start of the current held-image window: frames \<open>i\<close> and \<open>j\<close> carry
  the same array object exactly when they lie in the same window (\<open>i div 2 = j div 2\<close>),
  and the same list object only when \<open>i = j\<close>. The object at the array's address holds
  the array that the stream of values yields at that index.
\<close>

theorem array_sharing:
  assumes body: "reference_aux lib cls seed gs sx g bl d = Inr (aux, r)"
      and oki: "draws_ok aux r (Suc (i div 2))"
      and okj: "draws_ok aux r (Suc (j div 2))"
  shows "\<exists>p q p' q' a.
           store_pull (reference_aux lib cls seed gs sx g bl d) (h0, SNotStarted) i =
             Inr (p, q) \<and>
           store_pull (reference_aux lib cls seed gs sx g bl d) (h0, SNotStarted) j =
             Inr (p', q') \<and>
           (p = p') = (i div 2 = j div 2) \<and>
           (q = q') = (i = j) \<and>
           pull (reference_frames lib cls seed gs sx g bl d) i = Inr (a, [0]) \<and>
           fst (store_advance (reference_aux lib cls seed gs sx g bl d) (h0, SNotStarted)
                  (Suc i)) ! p = ArrayObj a"
proof -
  let ?p = "\<lambda>k. length h0 + 3 * (k div 2)"
  let ?q = "\<lambda>k. length h0 + 3 * (k div 2) + 1 + k mod 2"
  have pi: "store_pull (Inr (aux, r)) (h0, SNotStarted) i = Inr (?p i, ?q i)"
    using oki by (rule store_pull_ref)
  have pj: "store_pull (Inr (aux, r)) (h0, SNotStarted) j = Inr (?p j, ?q j)"
    using okj by (rule store_pull_ref)
  have ep: "(?p i = ?p j) = (i div 2 = j div 2)" by simp
  have eq: "(?q i = ?q j) = (i = j)"
  proof
    assume "?q i = ?q j"
    then have "3 * (i div 2) + i mod 2 = 3 * (j div 2) + j mod 2" by simp
    moreover have "i mod 2 < 2" and "j mod 2 < 2" by simp_all
    ultimately have "i div 2 = j div 2 \<and> i mod 2 = j mod 2" by (rule window_offset_inj)
    then show "i = j" by (metis div_mult_mod_eq)
  next
    assume "i = j"
    then show "?q i = ?q j" by simp
  qed
  have v: "pull (reference_frames lib cls seed gs sx g bl d) i =
      Inr (projr (nth_draw aux r (i div 2)), [0])"
    unfolding reference_frames_ref_gen[OF body] using oki by (rule ref_pull)
  from store_advance_ref[OF oki, of h0] obtain h where
    "store_advance (Inr (aux, r)) (h0, SNotStarted) (Suc i) =
       (h, SSuspended aux (?p i) (i mod 2) (rng_after aux r (Suc (i div 2))))"
    and "h ! ?p i = ArrayObj (projr (nth_draw aux r (i div 2)))"
    by blast
  then have h: "fst (store_advance (Inr (aux, r)) (h0, SNotStarted) (Suc i)) ! ?p i =
      ArrayObj (projr (nth_draw aux r (i div 2)))"
    by simp
  show ?thesis unfolding body
    by (intro exI conjI) (rule pi, rule pj, rule ep, rule eq, rule v, rule h)
qed

text \<open>
  The theorem at the pulls 2 and 5 of a dense reference stream over the example library,
  from an empty store: the arrays are the objects at the addresses 3 and 6.
\<close>

theorem array_sharing_witness:
  "store_pull (reference_aux toy_imagen Dense 0 (PyInt 10) (PyInt 10) True (PyInt 50) (PyFloat 5))
     ([], SNotStarted) 2 = Inr (3, 4) \<and>
   store_pull (reference_aux toy_imagen Dense 0 (PyInt 10) (PyInt 10) True (PyInt 50) (PyFloat 5))
     ([], SNotStarted) 5 = Inr (6, 8) \<and>
   ((3::nat) = 6) = ((2::nat) div 2 = 5 div 2)"
proof -
  let ?args = "\<lparr>grid_density = 1, offset = 0, scale = 100,
                 bounds_radius = 5, xdensity = 5, ydensity = 5\<rparr>"
  have b: "reference_aux toy_imagen Dense 0 (PyInt 10) (PyInt 10) True (PyInt 50) (PyFloat 5) =
      Inr (toy_draw ?args, 0)"
    by (simp add: reference_aux_toy)
  have e: "(2::nat) div 2 = 1" "(2::nat) mod 2 = 0" "(5::nat) div 2 = 2" "(5::nat) mod 2 = 1"
    by simp_all
  have p2: "store_pull (Inr (toy_draw ?args, 0)) ([], SNotStarted) 2 = Inr (3, 4)"
    using store_pull_ref[OF draws_ok_toy[of ?args 0], where i = 2 and ?h0.0 = "[]"]
    by (simp add: e)
  have p5: "store_pull (Inr (toy_draw ?args, 0)) ([], SNotStarted) 5 = Inr (6, 8)"
    using store_pull_ref[OF draws_ok_toy[of ?args 0], where i = 5 and ?h0.0 = "[]"]
    by (simp add: e)
  have "\<exists>p q p' q'. Inr (3, 4) = (Inr (p, q) :: error + nat \<times> nat) \<and>
      Inr (6, 8) = (Inr (p', q') :: error + nat \<times> nat) \<and> (p = p') = ((2::nat) div 2 = 5 div 2)"
    using array_sharing[OF b draws_ok_toy draws_ok_toy, where i = 2 and ?h0.0 = "[]" and j = 5]
    unfolding b p2 p5 by blast
  then have "((3::nat) = 6) = ((2::nat) div 2 = 5 div 2)" by simp
  with p2 p5 show ?thesis unfolding b by simp
qed

text \<open>
  C9 as stated says that the arrays of any two pulls are distinct objects, also within one
  held-image window. The first two pulls of a sparse reference stream over the example
  library, from an empty store, return the same array object, at address 0, with the two
  distinct lists at the addresses 1 and 2.
\<close>

theorem fresh_array_counterexample:
  "store_pull (reference_aux toy_imagen Sparse 0 (PyInt 10) (PyInt 10) True (PyInt 50) (PyFloat 5))
     ([], SNotStarted) 0 = Inr (0, 1) \<and>
   store_pull (reference_aux toy_imagen Sparse 0 (PyInt 10) (PyInt 10) True (PyInt 50) (PyFloat 5))
     ([], SNotStarted) 1 = Inr (0, 2)"
proof -
  let ?args = "\<lparr>grid_density = 1, offset = 0, scale = 100,
                 bounds_radius = 5, xdensity = 5, ydensity = 5\<rparr>"
  have b: "reference_aux toy_imagen Sparse 0 (PyInt 10) (PyInt 10) True (PyInt 50) (PyFloat 5) =
      Inr (toy_draw ?args, 0)"
    by (simp add: reference_aux_toy)
  have p0: "store_pull (Inr (toy_draw ?args, 0)) ([], SNotStarted) 0 = Inr (0, 1)"
    using store_pull_ref[OF draws_ok_toy[of ?args 0], where i = 0 and ?h0.0 = "[]"]
    by simp
  have p1: "store_pull (Inr (toy_draw ?args, 0)) ([], SNotStarted) 1 = Inr (0, 2)"
    using store_pull_ref[OF draws_ok_toy[of ?args 0], where i = 1 and ?h0.0 = "[]"]
    by simp
  show ?thesis unfolding b using p0 p1 by (rule conjI)
qed

section \<open>Two generators in one process\<close>

















text \<open>
  The separation of the two random generators is what the result rests on. Two generators
  suspended at the end of a window whose pattern objects were given one and the same
  random generator, at address 0, draw different arrays in the next iteration, and the
  comparison returns false.
\<close>

lemma shared_source_interferes:
  "fst (frames_equal_world (wreference_step body) (wreference_step body) 1
          ([5],
           WSuspended (toy_draw \<lparr>grid_density = 1, offset = 0, scale = 100, bounds_radius = 5,
                                  xdensity = 5, ydensity = 5\<rparr>) 0 a 1,
           WSuspended (toy_draw \<lparr>grid_density = 1, offset = 0, scale = 100, bounds_radius = 5,
                                  xdensity = 5, ydensity = 5\<rparr>) 0 a 1)) = Inr False"
  by (simp add: frames_per_image_2 wresample_def toy_draw_eq frame_match_def array_equal_def
      elem_eq_def)

end
